theory Spec2Isabelle
  imports Complex_Main
begin

text \<open>
  The point-set alignment functions \<open>computeCentroid\<close>, \<open>computeOptimalRotation\<close> and
  \<open>computeRigidTransformFromPoints\<close>, as the alignment tests of the repository define
  them (re-implemented there from \<open>alignment.ts\<close>), and the properties the
  specification states of them.
\<close>

section \<open>JavaScript numbers\<close>

text \<open>
  The alignment functions compute on JavaScript numbers. The model keeps the special
  values of the number type (\<open>NaN\<close> and the two infinities) and takes every finite number
  as an exact real: rounding, overflow and the sign of zero are left out, and a literal
  such as \<open>1e-10\<close> is the real it writes. All operations follow the IEEE rules for the
  special values (\<open>0 / 0\<close> is \<open>NaN\<close>, a comparison with \<open>NaN\<close> is false, and so on).

  The doubles of the code round and overflow where the reals do not. The properties
  that rest on the finite arithmetic are therefore stated so as not to depend on the
  difference: for coordinates within a bound that keeps every sum and product of the
  code far from overflow, and up to a tolerance wherever the code rounds. Inputs that
  are not finite are treated as the code treats them.
\<close>

datatype number = Num real | NaN | Infinity | NegInfinity

fun isFinite :: "number \<Rightarrow> bool" where
  "isFinite (Num a) = True"
| "isFinite NaN = False"
| "isFinite Infinity = False"
| "isFinite NegInfinity = False"

text \<open>The infinity of a given sign (\<open>True\<close> is negative).\<close>

fun signedInfinity :: "bool \<Rightarrow> number" where
  "signedInfinity True = NegInfinity"
| "signedInfinity False = Infinity"

instantiation number :: "{zero, one, plus, uminus, times, divide, ord}"
begin

definition zero_number :: number where
  "zero_number = Num 0"

definition one_number :: number where
  "one_number = Num 1"

fun plus_number :: "number \<Rightarrow> number \<Rightarrow> number" where
  "plus_number (Num a) (Num b) = Num (a + b)"
| "plus_number NaN _ = NaN"
| "plus_number _ NaN = NaN"
| "plus_number Infinity NegInfinity = NaN"
| "plus_number NegInfinity Infinity = NaN"
| "plus_number Infinity _ = Infinity"
| "plus_number NegInfinity _ = NegInfinity"
| "plus_number (Num a) Infinity = Infinity"
| "plus_number (Num a) NegInfinity = NegInfinity"

fun uminus_number :: "number \<Rightarrow> number" where
  "uminus_number (Num a) = Num (- a)"
| "uminus_number NaN = NaN"
| "uminus_number Infinity = NegInfinity"
| "uminus_number NegInfinity = Infinity"

fun times_number :: "number \<Rightarrow> number \<Rightarrow> number" where
  "times_number (Num a) (Num b) = Num (a * b)"
| "times_number NaN _ = NaN"
| "times_number _ NaN = NaN"
| "times_number Infinity Infinity = Infinity"
| "times_number Infinity NegInfinity = NegInfinity"
| "times_number NegInfinity Infinity = NegInfinity"
| "times_number NegInfinity NegInfinity = Infinity"
| "times_number Infinity (Num b) = (if b = 0 then NaN else signedInfinity (b < 0))"
| "times_number NegInfinity (Num b) = (if b = 0 then NaN else signedInfinity (0 < b))"
| "times_number (Num a) Infinity = (if a = 0 then NaN else signedInfinity (a < 0))"
| "times_number (Num a) NegInfinity = (if a = 0 then NaN else signedInfinity (0 < a))"

fun divide_number :: "number \<Rightarrow> number \<Rightarrow> number" where
  "divide_number (Num a) (Num b) =
     (if b \<noteq> 0 then Num (a / b) else if a = 0 then NaN else signedInfinity (a < 0))"
| "divide_number NaN _ = NaN"
| "divide_number _ NaN = NaN"
| "divide_number (Num a) Infinity = Num 0"
| "divide_number (Num a) NegInfinity = Num 0"
| "divide_number Infinity (Num b) = signedInfinity (b < 0)"
| "divide_number NegInfinity (Num b) = signedInfinity (0 \<le> b)"
| "divide_number Infinity _ = NaN"
| "divide_number NegInfinity _ = NaN"

fun less_number :: "number \<Rightarrow> number \<Rightarrow> bool" where
  "less_number (Num a) (Num b) = (a < b)"
| "less_number NaN _ = False"
| "less_number _ NaN = False"
| "less_number NegInfinity NegInfinity = False"
| "less_number NegInfinity _ = True"
| "less_number Infinity _ = False"
| "less_number (Num a) Infinity = True"
| "less_number (Num a) NegInfinity = False"

fun less_eq_number :: "number \<Rightarrow> number \<Rightarrow> bool" where
  "less_eq_number (Num a) (Num b) = (a \<le> b)"
| "less_eq_number NaN _ = False"
| "less_eq_number _ NaN = False"
| "less_eq_number NegInfinity _ = True"
| "less_eq_number Infinity Infinity = True"
| "less_eq_number Infinity _ = False"
| "less_eq_number (Num a) Infinity = True"
| "less_eq_number (Num a) NegInfinity = False"

instance ..

end

instantiation number :: "{minus, inverse}"
begin

definition minus_number :: "number \<Rightarrow> number \<Rightarrow> number" where
  "minus_number a b = a + (- b)"

definition inverse_number :: "number \<Rightarrow> number" where
  "inverse_number a = divide 1 a"

instance ..

end

instance number :: semigroup_add
proof
  fix a b c :: number
  show "a + b + c = a + (b + c)"
    by (cases a; cases b; cases c) simp_all
qed

instance number :: numeral ..

text \<open>\<open>Math.sqrt\<close>: \<open>NaN\<close> below zero.\<close>

fun Math_sqrt :: "number \<Rightarrow> number" where
  "Math_sqrt (Num a) = (if a < 0 then NaN else Num (sqrt a))"
| "Math_sqrt NaN = NaN"
| "Math_sqrt Infinity = Infinity"
| "Math_sqrt NegInfinity = NaN"

section \<open>Points and centroids\<close>

text \<open>The interface \<open>Point3D\<close> of the alignment tests.\<close>

record Point3D =
  x :: number
  y :: number
  z :: number

text \<open>
  Errors: the only exception these functions can raise on typed input is the
  \<open>TypeError\<close> of reading a property of \<open>undefined\<close>, when a loop indexes a list
  beyond its end.
\<close>

datatype error = TypeError

text \<open>
  \<open>computeCentroid\<close>: the loop \<open>for (const p of points)\<close> adds the coordinates to
  \<open>cx, cy, cz\<close>, then each sum is divided by \<open>points.length\<close>. Nothing checks the
  length: for the empty list the division is \<open>0 / 0\<close>.
\<close>

fun centroid_loop :: "Point3D list \<Rightarrow> number \<times> number \<times> number \<Rightarrow> number \<times> number \<times> number" where
  "centroid_loop [] acc = acc"
| "centroid_loop (p # ps) (cx, cy, cz) = centroid_loop ps (cx + x p, cy + y p, cz + z p)"

definition computeCentroid :: "Point3D list \<Rightarrow> error + Point3D" where
  "computeCentroid points =
     (case centroid_loop points (0, 0, 0) of (cx, cy, cz) \<Rightarrow>
        let n = Num (real (length points))
        in Inr \<lparr>x = cx / n, y = cy / n, z = cz / n\<rparr>)"

section \<open>Matrices and vectors of the three.js library\<close>

text \<open>
  Modelled from the spec: the three.js library (\<open>THREE.Matrix4\<close>, \<open>THREE.Vector3\<close>) is
  not among the sources. Its operations are taken as the spec describes the matrices: a
  4x4 homogeneous matrix acts on a column vector, and a product \<open>A \<cdot> B\<close> applies \<open>B\<close>
  first. \<open>Matrix4\<close> lists the sixteen entries in the row-major order of
  \<open>Matrix4.set\<close>. A \<open>Vector3\<close> has the fields of a \<open>Point3D\<close> and is modelled by the
  same record.
\<close>

datatype Matrix4 = Matrix4
  number number number number
  number number number number
  number number number number
  number number number number

definition identity4 :: Matrix4 where
  "identity4 = Matrix4 1 0 0 0  0 1 0 0  0 0 1 0  0 0 0 1"

fun makeScale :: "number \<Rightarrow> number \<Rightarrow> number \<Rightarrow> Matrix4" where
  "makeScale sx sy sz = Matrix4 sx 0 0 0  0 sy 0 0  0 0 sz 0  0 0 0 1"

fun makeTranslation :: "number \<Rightarrow> number \<Rightarrow> number \<Rightarrow> Matrix4" where
  "makeTranslation tx ty tz = Matrix4 1 0 0 tx  0 1 0 ty  0 0 1 tz  0 0 0 1"

text \<open>\<open>a.multiply(b)\<close> is the matrix product \<open>a \<cdot> b\<close>.\<close>

fun multiply :: "Matrix4 \<Rightarrow> Matrix4 \<Rightarrow> Matrix4" where
  "multiply (Matrix4 a11 a12 a13 a14 a21 a22 a23 a24 a31 a32 a33 a34 a41 a42 a43 a44)
            (Matrix4 b11 b12 b13 b14 b21 b22 b23 b24 b31 b32 b33 b34 b41 b42 b43 b44) =
     Matrix4
       (a11 * b11 + a12 * b21 + a13 * b31 + a14 * b41)
       (a11 * b12 + a12 * b22 + a13 * b32 + a14 * b42)
       (a11 * b13 + a12 * b23 + a13 * b33 + a14 * b43)
       (a11 * b14 + a12 * b24 + a13 * b34 + a14 * b44)
       (a21 * b11 + a22 * b21 + a23 * b31 + a24 * b41)
       (a21 * b12 + a22 * b22 + a23 * b32 + a24 * b42)
       (a21 * b13 + a22 * b23 + a23 * b33 + a24 * b43)
       (a21 * b14 + a22 * b24 + a23 * b34 + a24 * b44)
       (a31 * b11 + a32 * b21 + a33 * b31 + a34 * b41)
       (a31 * b12 + a32 * b22 + a33 * b32 + a34 * b42)
       (a31 * b13 + a32 * b23 + a33 * b33 + a34 * b43)
       (a31 * b14 + a32 * b24 + a33 * b34 + a34 * b44)
       (a41 * b11 + a42 * b21 + a43 * b31 + a44 * b41)
       (a41 * b12 + a42 * b22 + a43 * b32 + a44 * b42)
       (a41 * b13 + a42 * b23 + a43 * b33 + a44 * b43)
       (a41 * b14 + a42 * b24 + a43 * b34 + a44 * b44)"

text \<open>
  \<open>v.applyMatrix4(m)\<close>: the vector is extended by 1, multiplied by \<open>m\<close> and divided by
  the resulting fourth component.
\<close>

fun applyMatrix4 :: "Point3D \<Rightarrow> Matrix4 \<Rightarrow> Point3D" where
  "applyMatrix4 v (Matrix4 m11 m12 m13 m14 m21 m22 m23 m24 m31 m32 m33 m34 m41 m42 m43 m44) =
     (let w = 1 / (m41 * x v + m42 * y v + m43 * z v + m44)
      in \<lparr>x = (m11 * x v + m12 * y v + m13 * z v + m14) * w,
          y = (m21 * x v + m22 * y v + m23 * z v + m24) * w,
          z = (m31 * x v + m32 * y v + m33 * z v + m34) * w\<rparr>)"

definition multiplyScalar :: "Point3D \<Rightarrow> number \<Rightarrow> Point3D" where
  "multiplyScalar v s = \<lparr>x = x v * s, y = y v * s, z = z v * s\<rparr>"

text \<open>The determinant, expanded along the fourth row.\<close>

fun determinant :: "Matrix4 \<Rightarrow> number" where
  "determinant (Matrix4 n11 n12 n13 n14 n21 n22 n23 n24 n31 n32 n33 n34 n41 n42 n43 n44) =
     n41 * (n14 * n23 * n32 - n13 * n24 * n32 - n14 * n22 * n33
            + n12 * n24 * n33 + n13 * n22 * n34 - n12 * n23 * n34)
     + n42 * (n11 * n23 * n34 - n11 * n24 * n33 + n14 * n21 * n33
            - n13 * n21 * n34 + n13 * n24 * n31 - n14 * n23 * n31)
     + n43 * (n11 * n24 * n32 - n11 * n22 * n34 - n14 * n21 * n32
            + n12 * n21 * n34 + n14 * n22 * n31 - n12 * n24 * n31)
     + n44 * (- n13 * n22 * n31 - n11 * n23 * n32 + n11 * n22 * n33
            + n13 * n21 * n32 - n12 * n21 * n33 + n12 * n23 * n31)"

section \<open>The optimal rotation (Horn's quaternion method)\<close>

text \<open>A 3x3 array of numbers, as three rows; a four-element array.\<close>

type_synonym array3x3 =
  "(number \<times> number \<times> number) \<times> (number \<times> number \<times> number) \<times> (number \<times> number \<times> number)"

type_synonym array4 = "number \<times> number \<times> number \<times> number"

type_synonym array4x4 = "array4 \<times> array4 \<times> array4 \<times> array4"

text \<open>
  The loop \<open>for (let i = 0; i < sourcePoints.length; i++)\<close> that accumulates the
  covariance matrix \<open>h\<close>. It reads \<open>sourcePoints[i]\<close> and \<open>targetPoints[i]\<close>, so the two
  lists are walked together; when \<open>targetPoints\<close> ends first, \<open>targetPoints[i]\<close> is
  \<open>undefined\<close> and reading \<open>t.x\<close> throws.
\<close>

fun covariance_loop ::
  "Point3D list \<Rightarrow> Point3D list \<Rightarrow> Point3D \<Rightarrow> Point3D \<Rightarrow> array3x3 \<Rightarrow> error + array3x3" where
  "covariance_loop [] targetPoints sourceCentroid targetCentroid h = Inr h"
| "covariance_loop (s # ss) [] sourceCentroid targetCentroid h = Inl TypeError"
| "covariance_loop (s # ss) (t # ts) sourceCentroid targetCentroid
       ((h00, h01, h02), (h10, h11, h12), (h20, h21, h22)) =
     (let sx = x s - x sourceCentroid;
          sy = y s - y sourceCentroid;
          sz = z s - z sourceCentroid;
          tx = x t - x targetCentroid;
          ty = y t - y targetCentroid;
          tz = z t - z targetCentroid
      in covariance_loop ss ts sourceCentroid targetCentroid
           ((h00 + sx * tx, h01 + sx * ty, h02 + sx * tz),
            (h10 + sy * tx, h11 + sy * ty, h12 + sy * tz),
            (h20 + sz * tx, h21 + sz * ty, h22 + sz * tz)))"

text \<open>The 4x4 matrix \<open>n\<close> of the quaternion solution, built from \<open>h\<close>.\<close>

fun key_matrix :: "array3x3 \<Rightarrow> array4x4" where
  "key_matrix ((n11, n12, n13), (n21, n22, n23), (n31, n32, n33)) =
     ((n11 + n22 + n33, n23 - n32, n31 - n13, n12 - n21),
      (n23 - n32, n11 - n22 - n33, n12 + n21, n31 + n13),
      (n31 - n13, n12 + n21, - n11 + n22 - n33, n23 + n32),
      (n12 - n21, n31 + n13, n23 + n32, - n11 - n22 + n33))"

text \<open>
  The power iteration \<open>for (let iter = 0; iter < 50; iter++)\<close>. Its body computes
  \<open>newQ\<close>, the product of \<open>n\<close> with \<open>q\<close>, and \<open>len\<close>, the length of \<open>newQ\<close>; it
  leaves the loop (\<open>break\<close>) with \<open>q\<close> as it is when \<open>len < 1e-10\<close>, and else replaces
  \<open>q\<close> by \<open>newQ\<close> divided by \<open>len\<close>. The first argument of \<open>power_iteration\<close> counts the
  iterations that remain.
\<close>

fun key_times :: "array4x4 \<Rightarrow> array4 \<Rightarrow> array4" where
  "key_times ((n00, n01, n02, n03), (n10, n11, n12, n13),
              (n20, n21, n22, n23), (n30, n31, n32, n33)) (q0, q1, q2, q3) =
     (n00 * q0 + n01 * q1 + n02 * q2 + n03 * q3,
      n10 * q0 + n11 * q1 + n12 * q2 + n13 * q3,
      n20 * q0 + n21 * q1 + n22 * q2 + n23 * q3,
      n30 * q0 + n31 * q1 + n32 * q2 + n33 * q3)"

fun length4 :: "array4 \<Rightarrow> number" where
  "length4 (newQ0, newQ1, newQ2, newQ3) =
     Math_sqrt (newQ0 * newQ0 + newQ1 * newQ1 + newQ2 * newQ2 + newQ3 * newQ3)"

fun divide4 :: "array4 \<Rightarrow> number \<Rightarrow> array4" where
  "divide4 (newQ0, newQ1, newQ2, newQ3) len =
     (newQ0 / len, newQ1 / len, newQ2 / len, newQ3 / len)"

fun power_iteration :: "nat \<Rightarrow> array4x4 \<Rightarrow> array4 \<Rightarrow> array4" where
  "power_iteration 0 n q = q"
| "power_iteration (Suc remaining) n q =
     (let newQ = key_times n q;
          len = length4 newQ
      in if len < Num (1 / 10 ^ 10) then q
         else power_iteration remaining n (divide4 newQ len))"

text \<open>The rotation matrix of the quaternion \<open>(qw, qx, qy, qz)\<close>.\<close>

fun quaternion_matrix :: "array4 \<Rightarrow> Matrix4" where
  "quaternion_matrix (qw, qx, qy, qz) =
     Matrix4
       (1 - 2 * qy * qy - 2 * qz * qz) (2 * qx * qy - 2 * qz * qw) (2 * qx * qz + 2 * qy * qw) 0
       (2 * qx * qy + 2 * qz * qw) (1 - 2 * qx * qx - 2 * qz * qz) (2 * qy * qz - 2 * qx * qw) 0
       (2 * qx * qz - 2 * qy * qw) (2 * qy * qz + 2 * qx * qw) (1 - 2 * qx * qx - 2 * qy * qy) 0
       0 0 0 1"

definition computeOptimalRotation ::
  "Point3D list \<Rightarrow> Point3D list \<Rightarrow> Point3D \<Rightarrow> Point3D \<Rightarrow> error + Matrix4" where
  "computeOptimalRotation sourcePoints targetPoints sourceCentroid targetCentroid =
     (case covariance_loop sourcePoints targetPoints sourceCentroid targetCentroid
             ((0, 0, 0), (0, 0, 0), (0, 0, 0)) of
        Inl e \<Rightarrow> Inl e
      | Inr h \<Rightarrow> Inr (quaternion_matrix (power_iteration 50 (key_matrix h) (1, 0, 0, 0))))"

section \<open>The transform from point correspondences\<close>

text \<open>
  The loop of \<open>computeRigidTransformFromPoints\<close> that sums the squared distances to the
  centroids. It indexes both lists up to \<open>srcObjs.length\<close>.
\<close>

fun spread_loop ::
  "Point3D list \<Rightarrow> Point3D list \<Rightarrow> Point3D \<Rightarrow> Point3D \<Rightarrow> number \<times> number
     \<Rightarrow> error + number \<times> number" where
  "spread_loop [] dstObjs srcCentroid dstCentroid acc = Inr acc"
| "spread_loop (s # ss) [] srcCentroid dstCentroid acc = Inl TypeError"
| "spread_loop (s # ss) (d # ds) srcCentroid dstCentroid (srcSpreadSq, dstSpreadSq) =
     (let sdx = x s - x srcCentroid;
          sdy = y s - y srcCentroid;
          sdz = z s - z srcCentroid;
          ddx = x d - x dstCentroid;
          ddy = y d - y dstCentroid;
          ddz = z d - z dstCentroid
      in spread_loop ss ds srcCentroid dstCentroid
           (srcSpreadSq + (sdx * sdx + sdy * sdy + sdz * sdz),
            dstSpreadSq + (ddx * ddx + ddy * ddy + ddz * ddz)))"

text \<open>\<open>let scale = 1; if (srcSpreadSq > 1e-10) scale = Math.sqrt(dstSpreadSq / srcSpreadSq)\<close>.\<close>

definition uniform_scale :: "number \<Rightarrow> number \<Rightarrow> number" where
  "uniform_scale srcSpreadSq dstSpreadSq =
     (if Num (1 / 10 ^ 10) < srcSpreadSq then Math_sqrt (dstSpreadSq / srcSpreadSq) else 1)"

text \<open>The translation \<open>dstCentroid - scale * R * srcCentroid\<close>.\<close>

definition translation_of :: "Matrix4 \<Rightarrow> number \<Rightarrow> Point3D \<Rightarrow> Point3D \<Rightarrow> Point3D" where
  "translation_of rotMatrix scale srcCentroid dstCentroid =
     (let rotatedSrcCentroid = multiplyScalar (applyMatrix4 srcCentroid rotMatrix) scale
      in \<lparr>x = x dstCentroid - x rotatedSrcCentroid,
          y = y dstCentroid - y rotatedSrcCentroid,
          z = z dstCentroid - z rotatedSrcCentroid\<rparr>)"

text \<open>\<open>result.copy(transMat).multiply(scaleMat).multiply(rotMatrix)\<close>.\<close>

definition compose_transform :: "Point3D \<Rightarrow> number \<Rightarrow> Matrix4 \<Rightarrow> Matrix4" where
  "compose_transform translation scale rotMatrix =
     (let scaleMat = makeScale scale scale scale;
          transMat = makeTranslation (x translation) (y translation) (z translation)
      in multiply (multiply transMat scaleMat) rotMatrix)"

definition computeRigidTransformFromPoints ::
  "Point3D list \<Rightarrow> Point3D list \<Rightarrow> error + Matrix4" where
  "computeRigidTransformFromPoints srcPts dstPts =
     (let srcObjs = srcPts; dstObjs = dstPts in
      (case computeCentroid srcObjs of
         Inl e \<Rightarrow> Inl e
       | Inr srcCentroid \<Rightarrow>
      (case computeCentroid dstObjs of
         Inl e \<Rightarrow> Inl e
       | Inr dstCentroid \<Rightarrow>
      (case computeOptimalRotation srcObjs dstObjs srcCentroid dstCentroid of
         Inl e \<Rightarrow> Inl e
       | Inr rotMatrix \<Rightarrow>
      (case spread_loop srcObjs dstObjs srcCentroid dstCentroid (0, 0) of
         Inl e \<Rightarrow> Inl e
       | Inr (srcSpreadSq, dstSpreadSq) \<Rightarrow>
           (let scale = uniform_scale srcSpreadSq dstSpreadSq;
                translation = translation_of rotMatrix scale srcCentroid dstCentroid
            in Inr (compose_transform translation scale rotMatrix)))))))"

section \<open>Notions used to state the properties\<close>

text \<open>The real value of a finite number, and points with finite coordinates.\<close>

fun val :: "number \<Rightarrow> real" where
  "val (Num a) = a"
| "val NaN = 0"
| "val Infinity = 0"
| "val NegInfinity = 0"

definition finitePoint :: "Point3D \<Rightarrow> bool" where
  "finitePoint p = (isFinite (x p) \<and> isFinite (y p) \<and> isFinite (z p))"

text \<open>The point with the given real coordinates.\<close>

definition point :: "real \<Rightarrow> real \<Rightarrow> real \<Rightarrow> Point3D" where
  "point a b c = \<lparr>x = Num a, y = Num b, z = Num c\<rparr>"

text \<open>
  The spread of a point list about a centre: the sum of the squared distances of its
  points to the centre.
\<close>

definition sqdist :: "Point3D \<Rightarrow> Point3D \<Rightarrow> real" where
  "sqdist p c = (val (x p) - val (x c)) * (val (x p) - val (x c))
              + (val (y p) - val (y c)) * (val (y p) - val (y c))
              + (val (z p) - val (z c)) * (val (z p) - val (z c))"

definition spread :: "Point3D list \<Rightarrow> Point3D \<Rightarrow> real" where
  "spread ps c = sum_list (map (\<lambda>p. sqdist p c) ps)"

text \<open>The image of a point under scaling by \<open>k\<close> followed by translation by \<open>t\<close>.\<close>

definition scale_translate :: "real \<Rightarrow> Point3D \<Rightarrow> Point3D \<Rightarrow> Point3D" where
  "scale_translate k t p =
     \<lparr>x = Num k * x p + x t, y = Num k * y p + y t, z = Num k * z p + z t\<rparr>"

text \<open>A number is within \<open>tol\<close> of the real \<open>e\<close>.\<close>

definition close_to :: "real \<Rightarrow> number \<Rightarrow> real \<Rightarrow> bool" where
  "close_to tol a e = (isFinite a \<and> \<bar>val a - e\<bar> \<le> tol)"

text \<open>
  The matrix \<open>n\<close> of the quarter turn about the z axis (unit points, centroids at the
  origin). On it the power iteration stays among the quaternions \<open>(a, 0, 0, b)\<close>, scaled
  to length one, and sends the pair \<open>(a, b)\<close> to \<open>(a + 2b, 2a + b)\<close>.
\<close>

definition quarter_turn_key :: array4x4 where
  "quarter_turn_key = ((1, 0, 0, 2), (0, - 1, 0, 0), (0, 0, - 1, 0), (2, 0, 0, 1))"

fun iterate_pair :: "nat \<Rightarrow> real \<times> real \<Rightarrow> real \<times> real" where
  "iterate_pair 0 p = p"
| "iterate_pair (Suc k) (a, b) = iterate_pair k (a + 2 * b, 2 * a + b)"

definition direction :: "real \<times> real \<Rightarrow> array4" where
  "direction p = (Num (fst p / sqrt (fst p * fst p + snd p * snd p)), 0, 0,
                  Num (snd p / sqrt (fst p * fst p + snd p * snd p)))"

text \<open>
  The matrix \<open>n\<close> of the same quarter turn when the centroids are those of the two
  point sets, \<open>(1/3, 1/3, 1/3)\<close> and \<open>(-1/3, 1/3, 1/3)\<close>.
\<close>

definition own_centroid_key :: array4x4 where
  "own_centroid_key =
     ((Num (2 / 3), 0, Num (2 / 3), Num (4 / 3)),
      (0, 0, 0, 0),
      (Num (2 / 3), 0, Num (- 4 / 3), Num (- 2 / 3)),
      (Num (4 / 3), 0, Num (- 2 / 3), Num (2 / 3)))"

text \<open>The upper-left 3x3 block of a 4x4 matrix, and the algebra of 3x3 arrays.\<close>

fun rotation_block :: "Matrix4 \<Rightarrow> array3x3" where
  "rotation_block (Matrix4 m11 m12 m13 m14 m21 m22 m23 m24 m31 m32 m33 m34 m41 m42 m43 m44) =
     ((m11, m12, m13), (m21, m22, m23), (m31, m32, m33))"

fun transpose3 :: "array3x3 \<Rightarrow> array3x3" where
  "transpose3 ((a11, a12, a13), (a21, a22, a23), (a31, a32, a33)) =
     ((a11, a21, a31), (a12, a22, a32), (a13, a23, a33))"

fun multiply3 :: "array3x3 \<Rightarrow> array3x3 \<Rightarrow> array3x3" where
  "multiply3 ((a11, a12, a13), (a21, a22, a23), (a31, a32, a33))
             ((b11, b12, b13), (b21, b22, b23), (b31, b32, b33)) =
     ((a11 * b11 + a12 * b21 + a13 * b31,
       a11 * b12 + a12 * b22 + a13 * b32,
       a11 * b13 + a12 * b23 + a13 * b33),
      (a21 * b11 + a22 * b21 + a23 * b31,
       a21 * b12 + a22 * b22 + a23 * b32,
       a21 * b13 + a22 * b23 + a23 * b33),
      (a31 * b11 + a32 * b21 + a33 * b31,
       a31 * b12 + a32 * b22 + a33 * b32,
       a31 * b13 + a32 * b23 + a33 * b33))"

fun determinant3 :: "array3x3 \<Rightarrow> number" where
  "determinant3 ((a11, a12, a13), (a21, a22, a23), (a31, a32, a33)) =
     a11 * (a22 * a33 - a23 * a32) - a12 * (a21 * a33 - a23 * a31)
     + a13 * (a21 * a32 - a22 * a31)"

definition identity3 :: array3x3 where
  "identity3 = ((1, 0, 0), (0, 1, 0), (0, 0, 1))"

text \<open>
  Two centred point pairs in proportion: the target, taken from its centre, is \<open>k\<close> times
  the source, taken from its centre.
\<close>

definition proportional :: "real \<Rightarrow> Point3D \<Rightarrow> Point3D \<Rightarrow> Point3D \<Rightarrow> Point3D \<Rightarrow> bool" where
  "proportional k sc tc s t =
     (finitePoint s \<and> finitePoint t
      \<and> val (x t) - val (x tc) = k * (val (x s) - val (x sc))
      \<and> val (y t) - val (y tc) = k * (val (y s) - val (y sc))
      \<and> val (z t) - val (z tc) = k * (val (z s) - val (z sc)))"

text \<open>Arrays of finite numbers, and quaternions of length one.\<close>

fun finite3x3 :: "array3x3 \<Rightarrow> bool" where
  "finite3x3 ((a11, a12, a13), (a21, a22, a23), (a31, a32, a33)) =
     (isFinite a11 \<and> isFinite a12 \<and> isFinite a13 \<and> isFinite a21 \<and> isFinite a22
      \<and> isFinite a23 \<and> isFinite a31 \<and> isFinite a32 \<and> isFinite a33)"

text \<open>A finite symmetric 3x3 array with a diagonal that is not negative.\<close>

fun symmetric_nonneg :: "array3x3 \<Rightarrow> bool" where
  "symmetric_nonneg ((a11, a12, a13), (a21, a22, a23), (a31, a32, a33)) =
     (finite3x3 ((a11, a12, a13), (a21, a22, a23), (a31, a32, a33))
      \<and> a12 = a21 \<and> a13 = a31 \<and> a23 = a32
      \<and> 0 \<le> val a11 \<and> 0 \<le> val a22 \<and> 0 \<le> val a33)"

fun finite4 :: "array4 \<Rightarrow> bool" where
  "finite4 (a, b, c, d) = (isFinite a \<and> isFinite b \<and> isFinite c \<and> isFinite d)"

fun finite4x4 :: "array4x4 \<Rightarrow> bool" where
  "finite4x4 (r0, r1, r2, r3) = (finite4 r0 \<and> finite4 r1 \<and> finite4 r2 \<and> finite4 r3)"

fun unit_quaternion :: "array4 \<Rightarrow> bool" where
  "unit_quaternion (qw, qx, qy, qz) =
     (finite4 (qw, qx, qy, qz)
      \<and> val qw * val qw + val qx * val qx + val qy * val qy + val qz * val qz = 1)"

text \<open>
  Points whose coordinates are finite and at most \<open>B\<close> in absolute value, a point within
  \<open>tol\<close> of another in every coordinate, and a 3x3 array within \<open>tol\<close> of the identity
  in every entry.
\<close>

definition boundedPoint :: "real \<Rightarrow> Point3D \<Rightarrow> bool" where
  "boundedPoint B p =
     (finitePoint p \<and> \<bar>val (x p)\<bar> \<le> B \<and> \<bar>val (y p)\<bar> \<le> B \<and> \<bar>val (z p)\<bar> \<le> B)"

definition near_point :: "real \<Rightarrow> Point3D \<Rightarrow> Point3D \<Rightarrow> bool" where
  "near_point tol p q =
     (finitePoint q \<and> close_to tol (x p) (val (x q)) \<and> close_to tol (y p) (val (y q))
      \<and> close_to tol (z p) (val (z q)))"

fun near_identity3 :: "real \<Rightarrow> array3x3 \<Rightarrow> bool" where
  "near_identity3 tol ((a11, a12, a13), (a21, a22, a23), (a31, a32, a33)) =
     (close_to tol a11 1 \<and> close_to tol a12 0 \<and> close_to tol a13 0
      \<and> close_to tol a21 0 \<and> close_to tol a22 1 \<and> close_to tol a23 0
      \<and> close_to tol a31 0 \<and> close_to tol a32 0 \<and> close_to tol a33 1)"

section \<open>Arithmetic on finite numbers\<close>

lemma numeral_number [simp]: "(numeral k :: number) = Num (numeral k)"
proof (induction k)
  case One
  show ?case by (simp add: one_number_def)
next
  case (Bit0 k)
  have "(numeral (num.Bit0 k) :: number) = numeral k + numeral k"
    by (rule numeral.simps)
  also have "\<dots> = Num (numeral k + numeral k)"
    by (simp only: Bit0 plus_number.simps)
  also have "numeral k + numeral k = (numeral (num.Bit0 k) :: real)"
    by (rule numeral.simps [symmetric])
  finally show ?case .
next
  case (Bit1 k)
  have "(numeral (num.Bit1 k) :: number) = numeral k + numeral k + 1"
    by (rule numeral.simps)
  also have "\<dots> = Num (numeral k + numeral k + 1)"
    by (simp only: Bit1 plus_number.simps one_number_def)
  also have "numeral k + numeral k + 1 = (numeral (num.Bit1 k) :: real)"
    by (rule numeral.simps [symmetric])
  finally show ?case .
qed

declare zero_number_def [simp] one_number_def [simp]

lemma minus_Num [simp]: "Num a - Num b = Num (a - b)"
  by (simp add: minus_number_def)

lemma isFinite_iff: "isFinite a \<longleftrightarrow> (\<exists>r. a = Num r)"
  by (cases a) simp_all

lemma isFinite_plus [simp]: "isFinite a \<Longrightarrow> isFinite b \<Longrightarrow> isFinite (a + b)"
  by (cases a; cases b) simp_all

lemma isFinite_minus [simp]: "isFinite a \<Longrightarrow> isFinite b \<Longrightarrow> isFinite (a - b)"
  by (cases a; cases b) simp_all

lemma isFinite_times [simp]: "isFinite a \<Longrightarrow> isFinite b \<Longrightarrow> isFinite (a * b)"
  by (cases a; cases b) simp_all

lemma isFinite_uminus [simp]: "isFinite a \<Longrightarrow> isFinite (- a)"
  by (cases a) simp_all

lemma covariance_loop_finite:
  assumes "list_all finitePoint src" "list_all finitePoint tgt"
    and "finitePoint sc" "finitePoint tc" "finite3x3 h" "length src \<le> length tgt"
  shows "\<exists>h'. covariance_loop src tgt sc tc h = Inr h' \<and> finite3x3 h'"
  using assms
proof (induction src tgt sc tc h rule: covariance_loop.induct)
  case (1 targetPoints sourceCentroid targetCentroid h)
  then show ?case by simp
next
  case (2 s ss sourceCentroid targetCentroid h)
  then show ?case by simp
next
  case (3 s ss t ts sourceCentroid targetCentroid h00 h01 h02 h10 h11 h12 h20 h21 h22)
  from "3.prems" have fin: "finitePoint s" "finitePoint t" "list_all finitePoint ss"
    "list_all finitePoint ts" "length ss \<le> length ts"
    by simp_all
  show ?case
    unfolding covariance_loop.simps Let_def
    apply (rule "3.IH" [unfolded Let_def, OF refl refl refl refl refl refl])
    using "3.prems" fin by (simp_all add: finitePoint_def)
qed

lemma key_matrix_finite: "finite3x3 h \<Longrightarrow> finite4x4 (key_matrix h)"
  by (cases h rule: key_matrix.cases) simp

lemma key_times_finite: "finite4x4 n \<Longrightarrow> finite4 q \<Longrightarrow> finite4 (key_times n q)"
  by (cases "(n, q)" rule: key_times.cases) simp

lemma sum4_squares_nonneg: "0 \<le> a * a + b * b + c * c + d * (d :: real)"
  by (simp add: add_nonneg_nonneg)

lemma normalise_unit:
  assumes fin: "finite4 v" and len: "\<not> length4 v < Num (1 / 10 ^ 10)"
  shows "unit_quaternion (divide4 v (length4 v))"
proof -
  from fin obtain a b c d where v: "v = (Num a, Num b, Num c, Num d)"
    by (cases v) (auto simp: isFinite_iff)
  define S where "S = a * a + b * b + c * c + d * d"
  have S0: "0 \<le> S" unfolding S_def by (rule sum4_squares_nonneg)
  have "\<not> a * a + b * b + c * c + d * d < 0"
    using sum4_squares_nonneg [of a b c d] by linarith
  then have l: "length4 v = Num (sqrt S)"
    by (simp add: v S_def)
  from len have "\<not> sqrt S < 1 / 10 ^ 10" by (simp add: l)
  moreover have "(0::real) < 1 / 10 ^ 10" by simp
  ultimately have pos: "0 < sqrt S" by linarith
  then have Spos: "0 < S" by simp
  have sq: "sqrt S * sqrt S = S" using S0 by simp
  have ne: "sqrt S \<noteq> 0" using pos by simp
  have "a / sqrt S * (a / sqrt S) + b / sqrt S * (b / sqrt S)
        + c / sqrt S * (c / sqrt S) + d / sqrt S * (d / sqrt S)
        = (a * a + b * b + c * c + d * d) / (sqrt S * sqrt S)"
    by (simp add: add_divide_distrib)
  also have "\<dots> = 1" using Spos by (simp add: sq S_def)
  finally have E: "a / sqrt S * (a / sqrt S) + b / sqrt S * (b / sqrt S)
        + c / sqrt S * (c / sqrt S) + d / sqrt S * (d / sqrt S) = 1" .
  have "divide4 v (Num (sqrt S))
      = (Num (a / sqrt S), Num (b / sqrt S), Num (c / sqrt S), Num (d / sqrt S))"
    unfolding v by (simp only: divide4.simps divide_number.simps ne if_True simp_thms)
  then show ?thesis
    unfolding l using E
    by (simp only: unit_quaternion.simps finite4.simps isFinite.simps val.simps simp_thms)
qed

lemma power_iteration_unit:
  "finite4x4 n \<Longrightarrow> unit_quaternion q \<Longrightarrow> unit_quaternion (power_iteration k n q)"
proof (induction k arbitrary: q)
  case 0
  then show ?case by simp
next
  case (Suc k)
  from Suc.prems have "finite4 q" by (cases q) simp
  with Suc.prems have fin: "finite4 (key_times n q)" by (simp add: key_times_finite)
  show ?case
  proof (cases "length4 (key_times n q) < Num (1 / 10 ^ 10)")
    case True
    with Suc.prems show ?thesis by simp
  next
    case False
    from normalise_unit [OF fin False] Suc.IH [OF Suc.prems(1)] False
    show ?thesis by (simp add: Let_def)
  qed
qed

lemma quaternion_matrix_rotation:
  assumes "unit_quaternion q"
  shows "multiply3 (rotation_block (quaternion_matrix q))
           (transpose3 (rotation_block (quaternion_matrix q))) = identity3"
    and "determinant3 (rotation_block (quaternion_matrix q)) = 1"
proof -
  from assms obtain w a b c where q: "q = (Num w, Num a, Num b, Num c)"
    and u: "w * w + a * a + b * b + c * c = 1"
    by (cases q) (auto simp: isFinite_iff)
  define r11 where "r11 = 1 - 2 * b * b - 2 * c * c"
  define r12 where "r12 = 2 * a * b - 2 * c * w"
  define r13 where "r13 = 2 * a * c + 2 * b * w"
  define r21 where "r21 = 2 * a * b + 2 * c * w"
  define r22 where "r22 = 1 - 2 * a * a - 2 * c * c"
  define r23 where "r23 = 2 * b * c - 2 * a * w"
  define r31 where "r31 = 2 * a * c - 2 * b * w"
  define r32 where "r32 = 2 * b * c + 2 * a * w"
  define r33 where "r33 = 1 - 2 * a * a - 2 * b * b"
  note defs = r11_def r12_def r13_def r21_def r22_def r23_def r31_def r32_def r33_def
  have block: "rotation_block (quaternion_matrix q)
      = ((Num r11, Num r12, Num r13), (Num r21, Num r22, Num r23), (Num r31, Num r32, Num r33))"
    by (simp add: q defs)
  have d11: "r11 * r11 + r12 * r12 + r13 * r13 = 1" unfolding defs using u by algebra
  have d22: "r21 * r21 + r22 * r22 + r23 * r23 = 1" unfolding defs using u by algebra
  have d33: "r31 * r31 + r32 * r32 + r33 * r33 = 1" unfolding defs using u by algebra
  have d12: "r11 * r21 + r12 * r22 + r13 * r23 = 0" unfolding defs using u by algebra
  have d13: "r11 * r31 + r12 * r32 + r13 * r33 = 0" unfolding defs using u by algebra
  have d23: "r21 * r31 + r22 * r32 + r23 * r33 = 0" unfolding defs using u by algebra
  have d21: "r21 * r11 + r22 * r12 + r23 * r13 = 0" using d12 by (simp only: mult.commute)
  have d31: "r31 * r11 + r32 * r12 + r33 * r13 = 0" using d13 by (simp only: mult.commute)
  have d32: "r31 * r21 + r32 * r22 + r33 * r23 = 0" using d23 by (simp only: mult.commute)
  show "multiply3 (rotation_block (quaternion_matrix q))
           (transpose3 (rotation_block (quaternion_matrix q))) = identity3"
    unfolding block
    by (simp only: transpose3.simps multiply3.simps times_number.simps plus_number.simps
          d11 d22 d33 d12 d13 d23 d21 d31 d32 identity3_def zero_number_def one_number_def)
  have det: "r11 * (r22 * r33 - r23 * r32) - r12 * (r21 * r33 - r23 * r31)
       + r13 * (r21 * r32 - r22 * r31) = 1"
    unfolding defs using u by algebra
  show "determinant3 (rotation_block (quaternion_matrix q)) = 1"
    unfolding block
    by (simp only: determinant3.simps times_number.simps plus_number.simps minus_Num det
          one_number_def)
qed

lemma finitePoint_point [simp]: "finitePoint (point a b c)"
  by (simp add: finitePoint_def point_def)

section \<open>Proportional point sets\<close>

lemma finitePoint_obtain:
  assumes "finitePoint p"
  obtains a b c where "x p = Num a" "y p = Num b" "z p = Num c"
  using assms by (auto simp: finitePoint_def isFinite_iff)

lemma covariance_loop_proportional:
  assumes "list_all2 (proportional k sc tc) src tgt"
    and "finitePoint sc" "finitePoint tc" "0 \<le> k" "symmetric_nonneg h"
  shows "\<exists>h'. covariance_loop src tgt sc tc h = Inr h' \<and> symmetric_nonneg h'"
  using assms
proof (induction src tgt arbitrary: h rule: list_all2_induct)
  case Nil
  then show ?case by simp
next
  case (Cons s ss t ts)
  from Cons.hyps(1) have fs: "finitePoint s" and ft: "finitePoint t"
    by (simp_all add: proportional_def)
  obtain sx sy sz where s: "x s = Num sx" "y s = Num sy" "z s = Num sz"
    using fs by (rule finitePoint_obtain)
  obtain tx ty tz where t: "x t = Num tx" "y t = Num ty" "z t = Num tz"
    using ft by (rule finitePoint_obtain)
  obtain cx cy cz where sc: "x sc = Num cx" "y sc = Num cy" "z sc = Num cz"
    using Cons.prems(1) by (rule finitePoint_obtain)
  obtain dx dy dz where tc: "x tc = Num dx" "y tc = Num dy" "z tc = Num dz"
    using Cons.prems(2) by (rule finitePoint_obtain)
  from Cons.hyps(1) have p: "tx - dx = k * (sx - cx)" "ty - dy = k * (sy - cy)"
    "tz - dz = k * (sz - cz)"
    by (simp_all add: proportional_def s t sc tc)
  from Cons.prems(4) obtain a b c d e f where
    h: "h = ((Num a, Num d, Num e), (Num d, Num b, Num f), (Num e, Num f, Num c))"
    and nn: "0 \<le> a" "0 \<le> b" "0 \<le> c"
    by (cases h rule: symmetric_nonneg.cases) (auto simp: isFinite_iff)
  let ?h' = "((Num (a + (sx - cx) * (tx - dx)), Num (d + (sx - cx) * (ty - dy)),
               Num (e + (sx - cx) * (tz - dz))),
              (Num (d + (sy - cy) * (tx - dx)), Num (b + (sy - cy) * (ty - dy)),
               Num (f + (sy - cy) * (tz - dz))),
              (Num (e + (sz - cz) * (tx - dx)), Num (f + (sz - cz) * (ty - dy)),
               Num (c + (sz - cz) * (tz - dz))))"
  have step: "covariance_loop (s # ss) (t # ts) sc tc h = covariance_loop ss ts sc tc ?h'"
    by (simp add: h s t sc tc)
  have "0 \<le> k * ((sx - cx) * (sx - cx))" "0 \<le> k * ((sy - cy) * (sy - cy))"
    "0 \<le> k * ((sz - cz) * (sz - cz))"
    using \<open>0 \<le> k\<close> by simp_all
  then have "symmetric_nonneg ?h'"
    using nn by (simp add: p algebra_simps)
  from Cons.IH [OF Cons.prems(1,2,3) this] show ?case
    by (simp only: step)
qed

lemma power_iteration_seed:
  assumes "symmetric_nonneg h"
  shows "power_iteration k (key_matrix h) (1, 0, 0, 0) = (1, 0, 0, 0)"
proof -
  from assms obtain a b c d e f where
    h: "h = ((Num a, Num d, Num e), (Num d, Num b, Num f), (Num e, Num f, Num c))"
    and nn: "0 \<le> a" "0 \<le> b" "0 \<le> c"
    by (cases h rule: symmetric_nonneg.cases) (auto simp: isFinite_iff)
  define tr where "tr = a + b + c"
  have tr0: "0 \<le> tr" using nn by (simp add: tr_def)
  have kt: "key_times (key_matrix h) (1, 0, 0, 0) = (Num tr, Num 0, Num 0, Num 0)"
    by (simp add: h tr_def)
  have len: "length4 (Num tr, Num 0, Num 0, Num 0) = Num tr"
    using tr0 by (simp add: not_less)
  have dv: "\<not> tr < 1 / 10 ^ 10 \<Longrightarrow>
      divide4 (Num tr, Num 0, Num 0, Num 0) (Num tr) = (1, 0, 0, 0)"
    by auto
  show ?thesis
  proof (induction k)
    case 0
    show ?case by simp
  next
    case (Suc k)
    show ?case
      unfolding power_iteration.simps kt Let_def len
      using dv Suc.IH by (simp del: divide4.simps)
  qed
qed

lemma quaternion_matrix_seed: "quaternion_matrix (1, 0, 0, 0) = identity4"
  by (simp add: identity4_def)

lemma computeOptimalRotation_proportional:
  assumes "list_all2 (proportional k sc tc) src tgt"
    and "finitePoint sc" "finitePoint tc" "0 \<le> k"
  shows "computeOptimalRotation src tgt sc tc = Inr identity4"
proof -
  have "symmetric_nonneg ((0, 0, 0), (0, 0, 0), (0, 0, 0))" by simp
  from covariance_loop_proportional [OF assms this] obtain h where
    h: "covariance_loop src tgt sc tc ((0, 0, 0), (0, 0, 0), (0, 0, 0)) = Inr h"
    and s: "symmetric_nonneg h" by blast
  show ?thesis
    by (simp only: computeOptimalRotation_def h sum.case power_iteration_seed [OF s]
          quaternion_matrix_seed)
qed

lemma centroid_loop_finite:
  "list_all finitePoint ps \<Longrightarrow>
   centroid_loop ps (Num a, Num b, Num c) =
     (Num (a + sum_list (map (\<lambda>p. val (x p)) ps)),
      Num (b + sum_list (map (\<lambda>p. val (y p)) ps)),
      Num (c + sum_list (map (\<lambda>p. val (z p)) ps)))"
proof (induction ps arbitrary: a b c)
  case Nil
  show ?case by simp
next
  case (Cons p ps)
  from Cons.prems have "finitePoint p" by simp
  then obtain px py pz where p: "x p = Num px" "y p = Num py" "z p = Num pz"
    by (rule finitePoint_obtain)
  from Cons.prems have "list_all finitePoint ps" by simp
  from Cons.IH [OF this] show ?case
    by (simp add: p add.assoc)
qed

lemma computeCentroid_finite:
  assumes "list_all finitePoint ps" "ps \<noteq> []"
  shows "computeCentroid ps =
     Inr (point (sum_list (map (\<lambda>p. val (x p)) ps) / real (length ps))
                (sum_list (map (\<lambda>p. val (y p)) ps) / real (length ps))
                (sum_list (map (\<lambda>p. val (z p)) ps) / real (length ps)))"
  using assms centroid_loop_finite [of ps 0 0 0]
  by (simp add: computeCentroid_def point_def)

lemma spread_loop_finite:
  assumes "list_all finitePoint src" "list_all finitePoint dst"
    and "finitePoint sc" "finitePoint dc" "length src = length dst"
  shows "spread_loop src dst sc dc (Num a, Num b)
           = Inr (Num (a + spread src sc), Num (b + spread dst dc))"
  using assms
proof (induction src arbitrary: dst a b)
  case Nil
  then show ?case by (simp add: spread_def)
next
  case (Cons s ss)
  from Cons.prems(5) obtain d ds where dst: "dst = d # ds" by (cases dst) auto
  from Cons.prems have "finitePoint s" "finitePoint d" by (simp_all add: dst)
  then obtain sx sy sz dx dy dz where s: "x s = Num sx" "y s = Num sy" "z s = Num sz"
    and d: "x d = Num dx" "y d = Num dy" "z d = Num dz"
    by (metis finitePoint_obtain)
  obtain cx cy cz where sc: "x sc = Num cx" "y sc = Num cy" "z sc = Num cz"
    using Cons.prems(3) by (rule finitePoint_obtain)
  obtain ex ey ez where dc: "x dc = Num ex" "y dc = Num ey" "z dc = Num ez"
    using Cons.prems(4) by (rule finitePoint_obtain)
  from Cons.prems have rest: "list_all finitePoint ss" "list_all finitePoint ds"
    "length ss = length ds" by (simp_all add: dst)
  show ?case
    unfolding dst
    by (simp add: s d sc dc Cons.IH [OF rest(1,2) Cons.prems(3,4) rest(3)]
          spread_def sqdist_def add.assoc)
qed

lemma spread_nonneg: "0 \<le> spread ps c"
  unfolding spread_def by (rule sum_list_nonneg) (auto simp: sqdist_def)

lemma spread_proportional:
  "list_all2 (proportional k sc dc) src dst \<Longrightarrow> spread dst dc = k * k * spread src sc"
proof (induction src dst rule: list_all2_induct)
  case Nil
  show ?case by (simp add: spread_def)
next
  case (Cons s ss d ds)
  from Cons.hyps(1) have e: "val (x d) - val (x dc) = k * (val (x s) - val (x sc))"
    "val (y d) - val (y dc) = k * (val (y s) - val (y sc))"
    "val (z d) - val (z dc) = k * (val (z s) - val (z sc))"
    by (simp_all add: proportional_def)
  have "sqdist d dc = k * k * sqdist s sc"
    unfolding sqdist_def e by algebra
  with Cons.IH show ?case
    by (simp add: spread_def algebra_simps)
qed

lemma uniform_scale_finite:
  assumes "0 \<le> D" "0 \<le> S"
  shows "uniform_scale (Num S) (Num D) = Num (if 1 / 10 ^ 10 < S then sqrt (D / S) else 1)"
proof (cases "1 / 10 ^ 10 < S")
  case True
  moreover have "(0::real) < 1 / 10 ^ 10" by simp
  ultimately have "0 < S" by linarith
  then have "S \<noteq> 0" "\<not> D / S < 0" using assms by (simp_all add: not_less)
  with True show ?thesis by (simp add: uniform_scale_def)
next
  case False
  then show ?thesis by (simp add: uniform_scale_def)
qed

lemma translation_of_identity:
  "translation_of identity4 (Num s) (point cx cy cz) (point dx dy dz)
     = point (dx - cx * s) (dy - cy * s) (dz - cz * s)"
  by (simp add: translation_of_def identity4_def multiplyScalar_def point_def)

lemma compose_transform_identity:
  "compose_transform (point tx ty tz) (Num s) identity4
     = Matrix4 (Num s) 0 0 (Num tx)  0 (Num s) 0 (Num ty)  0 0 (Num s) (Num tz)  0 0 0 1"
  by (simp add: compose_transform_def identity4_def point_def)

lemma computeRigid_proportional:
  assumes fin: "list_all finitePoint src" "list_all finitePoint dst"
    and cen: "computeCentroid src = Inr (point cx cy cz)"
             "computeCentroid dst = Inr (point dx dy dz)"
    and pr: "list_all2 (proportional k (point cx cy cz) (point dx dy dz)) src dst"
    and k: "0 \<le> k"
    and s: "s = (if 1 / 10 ^ 10 < spread src (point cx cy cz) then k else 1)"
  shows "computeRigidTransformFromPoints src dst
     = Inr (Matrix4 (Num s) 0 0 (Num (dx - cx * s))
                    0 (Num s) 0 (Num (dy - cy * s))
                    0 0 (Num s) (Num (dz - cz * s))
                    0 0 0 1)"
proof -
  let ?sc = "point cx cy cz" and ?dc = "point dx dy dz"
  have rot: "computeOptimalRotation src dst ?sc ?dc = Inr identity4"
    using pr k by (simp add: computeOptimalRotation_proportional)
  from pr have len: "length src = length dst" by (rule list_all2_lengthD)
  have sp: "spread_loop src dst ?sc ?dc (0, 0)
      = Inr (Num (spread src ?sc), Num (k * k * spread src ?sc))"
    using spread_loop_finite [OF fin _ _ len, of ?sc ?dc 0 0] spread_proportional [OF pr]
    by simp
  have "uniform_scale (Num (spread src ?sc)) (Num (k * k * spread src ?sc)) = Num s"
  proof -
    have "0 \<le> k * k * spread src ?sc" using spread_nonneg [of src ?sc] by simp
    from uniform_scale_finite [OF this spread_nonneg]
    show ?thesis using k by (auto simp: s real_sqrt_mult)
  qed
  then show ?thesis
    by (simp only: computeRigidTransformFromPoints_def Let_def cen rot sp sum.case prod.case
          translation_of_identity compose_transform_identity)
qed

lemma finitePoint_is_point: "finitePoint p \<Longrightarrow> \<exists>a b c. p = point a b c"
  by (cases p) (auto simp: finitePoint_def isFinite_iff point_def)

lemma proportional_same: "finitePoint s \<Longrightarrow> proportional 1 c c s s"
  by (simp add: proportional_def)

lemma computeCentroid_is_point:
  assumes "list_all finitePoint ps" "ps \<noteq> []"
  shows "\<exists>a b c. computeCentroid ps = Inr (point a b c)"
  using computeCentroid_finite [OF assms] by blast

lemma point_sel [simp]:
  "x (point a b c) = Num a" "y (point a b c) = Num b" "z (point a b c) = Num c"
  by (simp_all add: point_def)

lemma scale_translate_point [simp]:
  "scale_translate k (point tx ty tz) (point a b c)
     = point (k * a + tx) (k * b + ty) (k * c + tz)"
  by (simp add: scale_translate_def point_def)

lemma scale_translate_val:
  assumes "finitePoint p"
  shows "val (x (scale_translate k (point tx ty tz) p)) = k * val (x p) + tx"
    and "val (y (scale_translate k (point tx ty tz) p)) = k * val (y p) + ty"
    and "val (z (scale_translate k (point tx ty tz) p)) = k * val (z p) + tz"
    and "finitePoint (scale_translate k (point tx ty tz) p)"
  using finitePoint_is_point [OF assms] by auto

lemma computeCentroid_scale_translate:
  assumes "list_all finitePoint src" "src \<noteq> []"
    and "computeCentroid src = Inr (point cx cy cz)"
  shows "computeCentroid (map (scale_translate k (point tx ty tz)) src)
           = Inr (point (k * cx + tx) (k * cy + ty) (k * cz + tz))"
proof -
  let ?f = "scale_translate k (point tx ty tz)"
  have fin: "list_all finitePoint (map ?f src)"
    using assms(1) by (simp add: list_all_iff scale_translate_val)
  have n: "real (length src) \<noteq> 0" using assms(2) by simp
  have sums:
    "sum_list (map (\<lambda>p. val (x (?f p))) src)
       = k * sum_list (map (\<lambda>p. val (x p)) src) + real (length src) * tx"
    "sum_list (map (\<lambda>p. val (y (?f p))) src)
       = k * sum_list (map (\<lambda>p. val (y p)) src) + real (length src) * ty"
    "sum_list (map (\<lambda>p. val (z (?f p))) src)
       = k * sum_list (map (\<lambda>p. val (z p)) src) + real (length src) * tz"
    using assms(1)
    by (induction src) (simp_all add: scale_translate_val algebra_simps)
  from assms(3) computeCentroid_finite [OF assms(1,2)]
  have c: "cx = sum_list (map (\<lambda>p. val (x p)) src) / real (length src)"
    "cy = sum_list (map (\<lambda>p. val (y p)) src) / real (length src)"
    "cz = sum_list (map (\<lambda>p. val (z p)) src) / real (length src)"
    by (simp_all add: point_def)
  have "map ?f src \<noteq> []" using assms(2) by simp
  from computeCentroid_finite [OF fin this] show ?thesis
    using n by (simp add: o_def sums c add_divide_distrib)
qed

lemma spread_zero:
  assumes "spread ps c = 0" "p \<in> set ps"
  shows "val (x p) = val (x c) \<and> val (y p) = val (y c) \<and> val (z p) = val (z c)"
proof -
  have nn: "0 \<le> sqdist q c" for q by (simp add: sqdist_def)
  from assms have z: "sqdist p c = 0"
  proof (induction ps)
    case Nil
    then show ?case by simp
  next
    case (Cons q qs)
    from Cons.prems(1) have "sqdist q c + spread qs c = 0" by (simp add: spread_def)
    with nn [of q] spread_nonneg [of qs c] have "sqdist q c = 0" "spread qs c = 0"
      by linarith+
    with Cons.IH Cons.prems(2) show ?case by auto
  qed
  define a b d where "a = val (x p) - val (x c)" and "b = val (y p) - val (y c)"
    and "d = val (z p) - val (z c)"
  from z have "a * a + b * b + d * d = 0" by (simp add: sqdist_def a_def b_def d_def)
  moreover have "0 \<le> a * a" "0 \<le> b * b" "0 \<le> d * d" by simp_all
  ultimately have "a * a = 0" "b * b = 0" "d * d = 0" by linarith+
  then show ?thesis by (simp add: a_def b_def d_def)
qed

lemma computeCentroid_replicate:
  assumes "0 < n"
  shows "computeCentroid (replicate n (point a b c)) = Inr (point a b c)"
proof -
  have "list_all finitePoint (replicate n (point a b c))" by (simp add: list_all_iff)
  moreover have "replicate n (point a b c) \<noteq> []" using assms by simp
  ultimately show ?thesis
    using assms by (simp add: computeCentroid_finite sum_list_replicate)
qed

lemma compose_transform_identity_apply:
  "applyMatrix4 (point vx vy vz) (compose_transform (point tx ty tz) (Num s) identity4)
     = point (s * vx + tx) (s * vy + ty) (s * vz + tz)"
  by (simp only: compose_transform_identity) (simp add: point_def)

lemma computeOptimalRotation_unit:
  assumes "length src = length tgt"
    and "list_all finitePoint src" and "list_all finitePoint tgt"
    and "finitePoint sc" and "finitePoint tc"
  shows "\<exists>q. computeOptimalRotation src tgt sc tc = Inr (quaternion_matrix q) \<and> unit_quaternion q"
proof -
  have "finite3x3 ((0, 0, 0), (0, 0, 0), (0, 0, 0))" by simp
  with assms obtain h where
    h: "covariance_loop src tgt sc tc ((0, 0, 0), (0, 0, 0), (0, 0, 0)) = Inr h"
    and fin: "finite3x3 h"
    using covariance_loop_finite [of src tgt sc tc "((0, 0, 0), (0, 0, 0), (0, 0, 0))"]
    by auto
  have "unit_quaternion (1, 0, 0, 0)" by simp
  then have "unit_quaternion (power_iteration 50 (key_matrix h) (1, 0, 0, 0))"
    by (rule power_iteration_unit [OF key_matrix_finite [OF fin]])
  moreover have "computeOptimalRotation src tgt sc tc
      = Inr (quaternion_matrix (power_iteration 50 (key_matrix h) (1, 0, 0, 0)))"
    by (simp only: computeOptimalRotation_def h sum.case)
  ultimately show ?thesis by blast
qed

lemma quaternion_matrix_finite:
  assumes "unit_quaternion q"
  shows "\<exists>r11 r12 r13 r21 r22 r23 r31 r32 r33.
           quaternion_matrix q = Matrix4 (Num r11) (Num r12) (Num r13) (Num 0)
                                         (Num r21) (Num r22) (Num r23) (Num 0)
                                         (Num r31) (Num r32) (Num r33) (Num 0)
                                         (Num 0) (Num 0) (Num 0) (Num 1)"
proof -
  from assms obtain w a b c where "q = (Num w, Num a, Num b, Num c)"
    by (cases q) (auto simp: isFinite_iff)
  then show ?thesis by simp
qed

lemma covariance_loop_total:
  "length src \<le> length tgt \<Longrightarrow> \<exists>h'. covariance_loop src tgt sc tc h = Inr h'"
proof (induction src tgt sc tc h rule: covariance_loop.induct)
  case (3 s ss t ts sourceCentroid targetCentroid h00 h01 h02 h10 h11 h12 h20 h21 h22)
  from "3.prems" have "length ss \<le> length ts" by simp
  from "3.IH" [OF refl refl refl refl refl refl this] show ?case
    by (simp add: Let_def)
qed auto

lemma computeCentroid_total: "\<exists>c. computeCentroid ps = Inr c"
  by (simp add: computeCentroid_def Let_def split: prod.split)

lemma spread_loop_total:
  "length src \<le> length dst \<Longrightarrow> \<exists>r. spread_loop src dst sc dc acc = Inr r"
proof (induction src dst sc dc acc rule: spread_loop.induct)
  case (3 s ss d ds srcCentroid dstCentroid srcSpreadSq dstSpreadSq)
  from "3.prems" have "length ss \<le> length ds" by simp
  from "3.IH" [OF refl refl refl refl refl refl this] show ?case
    by (simp add: Let_def)
qed auto

lemma uniform_scale_isFinite:
  "isFinite (uniform_scale (Num (spread src sc)) (Num (spread dst dc)))"
  using uniform_scale_finite [OF spread_nonneg [of dst dc] spread_nonneg [of src sc]]
  by simp

lemma apply_composition:
  "applyMatrix4 (point vx vy vz)
     (multiply (multiply (makeTranslation (Num tx) (Num ty) (Num tz))
                         (makeScale (Num s) (Num s) (Num s)))
        (Matrix4 (Num r11) (Num r12) (Num r13) (Num 0)
                 (Num r21) (Num r22) (Num r23) (Num 0)
                 (Num r31) (Num r32) (Num r33) (Num 0)
                 (Num 0) (Num 0) (Num 0) (Num 1)))
   = applyMatrix4
       (applyMatrix4
          (applyMatrix4 (point vx vy vz)
             (Matrix4 (Num r11) (Num r12) (Num r13) (Num 0)
                      (Num r21) (Num r22) (Num r23) (Num 0)
                      (Num r31) (Num r32) (Num r33) (Num 0)
                      (Num 0) (Num 0) (Num 0) (Num 1)))
          (makeScale (Num s) (Num s) (Num s)))
       (makeTranslation (Num tx) (Num ty) (Num tz))"
  by (simp add: point_def algebra_simps)

lemma translation_of_finite:
  assumes "R = Matrix4 (Num r11) (Num r12) (Num r13) (Num 0)
                 (Num r21) (Num r22) (Num r23) (Num 0)
                 (Num r31) (Num r32) (Num r33) (Num 0)
                 (Num 0) (Num 0) (Num 0) (Num 1)"
  shows "finitePoint (translation_of R (Num s) (point cx cy cz) (point dx dy dz))"
  by (simp add: assms translation_of_def multiplyScalar_def finitePoint_def)

section \<open>Inputs that are not finite\<close>

text \<open>
  \<open>NaN\<close> is absorbing: once the product of \<open>n\<close> and \<open>q\<close> holds nothing but \<open>NaN\<close>, the
  test \<open>len < 1e-10\<close> is false in every iteration and the quaternion stays \<open>NaN\<close>.
\<close>

lemma times_NaN: "a * NaN = NaN"
  by (cases a) simp_all

lemma plus_NaN: "a + NaN = NaN"
  by (cases a) simp_all

lemma power_iteration_NaN:
  "power_iteration k n (NaN, NaN, NaN, NaN) = (NaN, NaN, NaN, NaN)"
proof (induction k)
  case 0
  show ?case by simp
next
  case (Suc k)
  have kt: "key_times n (NaN, NaN, NaN, NaN) = (NaN, NaN, NaN, NaN)"
    by (cases "(n, (NaN, NaN, NaN, NaN))" rule: key_times.cases) (simp add: times_NaN plus_NaN)
  show ?case
    by (simp only: power_iteration.simps kt Let_def) (simp add: Suc)
qed

lemma power_iteration_to_NaN:
  assumes "key_times n q = (NaN, NaN, NaN, NaN)"
  shows "power_iteration 50 n q = (NaN, NaN, NaN, NaN)"
proof -
  have "power_iteration (Suc 49) n q = (NaN, NaN, NaN, NaN)"
    by (simp only: power_iteration.simps assms Let_def) (simp add: power_iteration_NaN)
  then show ?thesis by simp
qed

lemma quaternion_matrix_NaN:
  "quaternion_matrix (NaN, NaN, NaN, NaN)
     = Matrix4 NaN NaN NaN 0  NaN NaN NaN 0  NaN NaN NaN 0  0 0 0 1"
  by (simp add: minus_number_def)

text \<open>
  A single source point \<open>(Infinity, 0, 0)\<close> with a centroid of the same first coordinate:
  the centred coordinate is \<open>Infinity - Infinity\<close>, which is \<open>NaN\<close>.
\<close>

lemma rotation_of_infinite_point:
  assumes "x sc = Infinity"
  shows "computeOptimalRotation [\<lparr>x = Infinity, y = 0, z = 0\<rparr>] [t] sc tc
      = Inr (Matrix4 NaN NaN NaN 0  NaN NaN NaN 0  NaN NaN NaN 0  0 0 0 1)"
proof -
  obtain h10 h11 h12 h20 h21 h22 where cov:
    "covariance_loop [\<lparr>x = Infinity, y = 0, z = 0\<rparr>] [t] sc tc ((0, 0, 0), (0, 0, 0), (0, 0, 0))
      = Inr ((NaN, NaN, NaN), (h10, h11, h12), (h20, h21, h22))"
    by (simp add: Let_def minus_number_def assms)
  have kt: "key_times (key_matrix ((NaN, NaN, NaN), (h10, h11, h12), (h20, h21, h22))) (1, 0, 0, 0)
      = (NaN, NaN, NaN, NaN)"
    by (simp add: minus_number_def times_NaN plus_NaN)
  show ?thesis
    by (simp only: computeOptimalRotation_def cov sum.case power_iteration_to_NaN [OF kt]
          quaternion_matrix_NaN)
qed

lemma rigid_of_infinite_point:
  assumes q: "q = \<lparr>x = Infinity, y = 0, z = 0\<rparr> \<or> q = point 0 0 0"
  shows "computeRigidTransformFromPoints [\<lparr>x = Infinity, y = 0, z = 0\<rparr>] [q]
      = Inr (Matrix4 NaN NaN NaN NaN  NaN NaN NaN NaN  NaN NaN NaN NaN  NaN NaN NaN 1)"
proof -
  let ?p = "\<lparr>x = Infinity, y = 0, z = 0\<rparr>"
  let ?R = "Matrix4 NaN NaN NaN 0  NaN NaN NaN 0  NaN NaN NaN 0  0 0 0 1"
  have cen: "computeCentroid [?p] = Inr ?p" "computeCentroid [q] = Inr q"
    using q by (auto simp: computeCentroid_def point_def)
  have rot: "computeOptimalRotation [?p] [q] ?p q = Inr ?R"
    by (rule rotation_of_infinite_point) simp
  obtain d where sp: "spread_loop [?p] [q] ?p q (0, 0) = Inr (NaN, d)"
    by (simp add: Let_def minus_number_def)
  have sc: "uniform_scale NaN d = 1"
    by (simp add: uniform_scale_def)
  have tr: "translation_of ?R 1 ?p q = \<lparr>x = NaN, y = NaN, z = NaN\<rparr>"
    by (simp add: translation_of_def multiplyScalar_def minus_number_def plus_NaN)
  have co: "compose_transform \<lparr>x = NaN, y = NaN, z = NaN\<rparr> 1 ?R
      = Matrix4 NaN NaN NaN NaN  NaN NaN NaN NaN  NaN NaN NaN NaN  NaN NaN NaN 1"
    by (simp add: compose_transform_def)
  show ?thesis
    by (simp only: computeRigidTransformFromPoints_def Let_def cen rot sp sc tr co
          sum.case prod.case)
qed

section \<open>Bounded points and tolerances\<close>

lemma bounded_finite: "list_all (boundedPoint B) ps \<Longrightarrow> list_all finitePoint ps"
  by (simp add: list_all_iff boundedPoint_def)

lemma boundedPoint_point:
  "boundedPoint B (point a b c) \<longleftrightarrow> \<bar>a\<bar> \<le> B \<and> \<bar>b\<bar> \<le> B \<and> \<bar>c\<bar> \<le> B"
  by (simp add: boundedPoint_def)

lemma close_to_Num: "close_to tol (Num a) e \<longleftrightarrow> \<bar>a - e\<bar> \<le> tol"
  by (simp add: close_to_def)

lemma near_point_point:
  "near_point tol (point a b c) (point d e f)
     \<longleftrightarrow> \<bar>a - d\<bar> \<le> tol \<and> \<bar>b - e\<bar> \<le> tol \<and> \<bar>c - f\<bar> \<le> tol"
  by (simp add: near_point_def close_to_Num)

text \<open>No point is farther from the centre than the root of the spread.\<close>

lemma sqdist_le_spread: "p \<in> set ps \<Longrightarrow> sqdist p c \<le> spread ps c"
proof (induction ps)
  case Nil
  then show ?case by simp
next
  case (Cons q qs)
  have nn: "0 \<le> sqdist q c" by (simp add: sqdist_def)
  have sp: "spread (q # qs) c = sqdist q c + spread qs c" by (simp add: spread_def)
  show ?case
  proof (cases "p = q")
    case True
    with spread_nonneg [of qs c] show ?thesis by (simp add: sp)
  next
    case False
    with Cons have "sqdist p c \<le> spread qs c" by simp
    with nn show ?thesis by (simp add: sp)
  qed
qed

lemma spread_bound:
  assumes "p \<in> set ps" and "spread ps c \<le> e * e" and "0 \<le> e"
  shows "\<bar>val (x p) - val (x c)\<bar> \<le> e" and "\<bar>val (y p) - val (y c)\<bar> \<le> e"
    and "\<bar>val (z p) - val (z c)\<bar> \<le> e"
proof -
  define a b d where "a = val (x p) - val (x c)" and "b = val (y p) - val (y c)"
    and "d = val (z p) - val (z c)"
  have "a * a + b * b + d * d \<le> e * e"
    using sqdist_le_spread [OF assms(1), of c] assms(2)
    by (simp add: sqdist_def a_def b_def d_def)
  moreover have "0 \<le> a * a" "0 \<le> b * b" "0 \<le> d * d" by simp_all
  ultimately have "a * a \<le> e * e" "b * b \<le> e * e" "d * d \<le> e * e" by linarith+
  then have "a\<^sup>2 \<le> e\<^sup>2" "b\<^sup>2 \<le> e\<^sup>2" "d\<^sup>2 \<le> e\<^sup>2"
    by (simp_all add: power2_eq_square)
  then have "\<bar>a\<bar> \<le> \<bar>e\<bar>" "\<bar>b\<bar> \<le> \<bar>e\<bar>" "\<bar>d\<bar> \<le> \<bar>e\<bar>"
    by (simp_all only: abs_le_square_iff)
  with assms(3) show "\<bar>val (x p) - val (x c)\<bar> \<le> e" "\<bar>val (y p) - val (y c)\<bar> \<le> e"
    "\<bar>val (z p) - val (z c)\<bar> \<le> e"
    by (simp_all add: a_def b_def d_def)
qed

text \<open>
  The error of a coordinate when the scale is left at 1 for a factor \<open>k\<close> of at most 10
  and a point within \<open>1e-5\<close> of the centroid.
\<close>

lemma floor_error:
  fixes a c k t :: real
  assumes "\<bar>a - c\<bar> \<le> 1 / 10 ^ 5" and "0 < k" and "k \<le> 10"
  shows "\<bar>1 * a + (k * c + t - c * 1) - (k * a + t)\<bar> \<le> 1 / 1000"
proof -
  have e: "1 * a + (k * c + t - c * 1) - (k * a + t) = (1 - k) * (a - c)"
    by (simp add: algebra_simps)
  from assms(2,3) have "\<bar>1 - k\<bar> \<le> 9" by simp
  then have "\<bar>1 - k\<bar> * \<bar>a - c\<bar> \<le> 9 * (1 / 10 ^ 5)"
    using assms(1) by (intro mult_mono) simp_all
  then have "\<bar>(1 - k) * (a - c)\<bar> \<le> 9 * (1 / 10 ^ 5)"
    by (simp only: abs_mult)
  moreover have "(9::real) * (1 / 10 ^ 5) \<le> 1 / 1000" by simp
  ultimately have "\<bar>(1 - k) * (a - c)\<bar> \<le> 1 / 1000" by linarith
  then show ?thesis by (simp only: e)
qed

section \<open>Rotations are orthonormal and proper\<close>

text \<open>
  C1, as stated, speaks of every pair of point lists of equal length and every pair of
  centroids. It fails when a coordinate is not finite. For the single source point and
  target point \<open>(Infinity, 0, 0)\<close> and both centroids at the origin, the covariance
  matrix holds \<open>Infinity\<close> and \<open>NaN\<close>, the first product of \<open>n\<close> and \<open>q\<close> is \<open>NaN\<close> in
  every component, and the nine entries of the rotation block are \<open>NaN\<close>: the block
  times its transpose is not the identity and its determinant is not 1, within any
  tolerance.
\<close>

theorem rotation_not_a_number:
  "length [\<lparr>x = Infinity, y = 0, z = 0\<rparr>] = length [\<lparr>x = Infinity, y = 0, z = 0\<rparr>]
   \<and> computeOptimalRotation [\<lparr>x = Infinity, y = 0, z = 0\<rparr>] [\<lparr>x = Infinity, y = 0, z = 0\<rparr>]
        (point 0 0 0) (point 0 0 0)
      = Inr (Matrix4 NaN NaN NaN 0  NaN NaN NaN 0  NaN NaN NaN 0  0 0 0 1)
   \<and> multiply3 (rotation_block (Matrix4 NaN NaN NaN 0  NaN NaN NaN 0  NaN NaN NaN 0  0 0 0 1))
        (transpose3 (rotation_block
           (Matrix4 NaN NaN NaN 0  NaN NaN NaN 0  NaN NaN NaN 0  0 0 0 1)))
      = ((NaN, NaN, NaN), (NaN, NaN, NaN), (NaN, NaN, NaN))
   \<and> determinant3 (rotation_block (Matrix4 NaN NaN NaN 0  NaN NaN NaN 0  NaN NaN NaN 0  0 0 0 1))
      = NaN
   \<and> \<not> near_identity3 (1 / 10 ^ 4) ((NaN, NaN, NaN), (NaN, NaN, NaN), (NaN, NaN, NaN))
   \<and> \<not> close_to (1 / 10 ^ 4) NaN 1"
proof -
  have cov: "covariance_loop [\<lparr>x = Infinity, y = 0, z = 0\<rparr>] [\<lparr>x = Infinity, y = 0, z = 0\<rparr>]
        (point 0 0 0) (point 0 0 0) ((0, 0, 0), (0, 0, 0), (0, 0, 0))
      = Inr ((Infinity, NaN, NaN), (NaN, 0, 0), (NaN, 0, 0))"
    by (simp add: Let_def minus_number_def)
  have kt: "key_times (key_matrix ((Infinity, NaN, NaN), (NaN, 0, 0), (NaN, 0, 0))) (1, 0, 0, 0)
      = (NaN, NaN, NaN, NaN)"
    by (simp add: minus_number_def)
  have rot: "computeOptimalRotation [\<lparr>x = Infinity, y = 0, z = 0\<rparr>]
        [\<lparr>x = Infinity, y = 0, z = 0\<rparr>] (point 0 0 0) (point 0 0 0)
      = Inr (Matrix4 NaN NaN NaN 0  NaN NaN NaN 0  NaN NaN NaN 0  0 0 0 1)"
    by (simp only: computeOptimalRotation_def cov sum.case power_iteration_to_NaN [OF kt]
          quaternion_matrix_NaN)
  show ?thesis
    by (simp only: rot) (simp add: minus_number_def close_to_def)
qed

text \<open>
  C1, amended. For point lists of equal length and two centroids, all with finite
  coordinates of absolute value at most \<open>1e50\<close>, \<open>computeOptimalRotation\<close> returns a
  matrix whose upper-left 3x3 block \<open>R\<close> is orthonormal and proper within \<open>1e-4\<close>: every
  entry of \<open>R\<close> times its transpose is within \<open>1e-4\<close> of the entry of the identity, and
  the determinant is within \<open>1e-4\<close> of 1. The degenerate inputs (collinear, coincident,
  half-turn) are included. The bound keeps every sum of products formed by the code
  far below the largest double; the power iteration divides by the length of \<open>newQ\<close>
  only when that length is at least \<open>1e-10\<close>, so the quaternion it keeps has length one.
\<close>

theorem rotation_orthonormal_proper:
  assumes "length sourcePoints = length targetPoints"
    and "list_all (boundedPoint (10 ^ 50)) sourcePoints"
    and "list_all (boundedPoint (10 ^ 50)) targetPoints"
    and "boundedPoint (10 ^ 50) sourceCentroid" and "boundedPoint (10 ^ 50) targetCentroid"
  shows "\<exists>R. computeOptimalRotation sourcePoints targetPoints sourceCentroid targetCentroid = Inr R
           \<and> near_identity3 (1 / 10 ^ 4)
                (multiply3 (rotation_block R) (transpose3 (rotation_block R)))
           \<and> close_to (1 / 10 ^ 4) (determinant3 (rotation_block R)) 1"
proof -
  from assms(4,5) have fc: "finitePoint sourceCentroid" "finitePoint targetCentroid"
    by (simp_all add: boundedPoint_def)
  from computeOptimalRotation_unit [OF assms(1) bounded_finite [OF assms(2)]
      bounded_finite [OF assms(3)] fc]
  obtain q where
    R: "computeOptimalRotation sourcePoints targetPoints sourceCentroid targetCentroid
          = Inr (quaternion_matrix q)"
    and u: "unit_quaternion q" by blast
  have "near_identity3 (1 / 10 ^ 4) identity3" "close_to (1 / 10 ^ 4) 1 1"
    by (simp_all add: identity3_def close_to_Num)
  with quaternion_matrix_rotation [OF u] R show ?thesis by (simp del: one_number_def)
qed

text \<open>A collinear input: three points on a line, sent to three points on another line.\<close>

theorem rotation_orthonormal_proper_witness:
  "length [point 0 0 0, point 1 0 0, point 2 0 0] = length [point 0 0 0, point 0 1 0, point 0 2 0]
   \<and> list_all (boundedPoint (10 ^ 50)) [point 0 0 0, point 1 0 0, point 2 0 0]
   \<and> list_all (boundedPoint (10 ^ 50)) [point 0 0 0, point 0 1 0, point 0 2 0]
   \<and> boundedPoint (10 ^ 50) (point 1 0 0) \<and> boundedPoint (10 ^ 50) (point 0 1 0)
   \<and> (\<exists>R. computeOptimalRotation [point 0 0 0, point 1 0 0, point 2 0 0]
              [point 0 0 0, point 0 1 0, point 0 2 0] (point 1 0 0) (point 0 1 0) = Inr R
           \<and> near_identity3 (1 / 10 ^ 4)
                (multiply3 (rotation_block R) (transpose3 (rotation_block R)))
           \<and> close_to (1 / 10 ^ 4) (determinant3 (rotation_block R)) 1)"
  using rotation_orthonormal_proper
    [of "[point 0 0 0, point 1 0 0, point 2 0 0]" "[point 0 0 0, point 0 1 0, point 0 2 0]"
        "point 1 0 0" "point 0 1 0"]
  by (simp add: boundedPoint_point)

section \<open>Identical and single-point inputs\<close>

text \<open>
  C3, as stated, speaks of every point list. It fails when a coordinate is not finite.
  For the list of the single point \<open>(Infinity, 0, 0)\<close>, whose centroid is that point, the
  centred coordinate is \<open>Infinity - Infinity\<close>, the rotation block returned by
  \<open>computeOptimalRotation\<close> is \<open>NaN\<close> in its nine entries, and the matrix returned by
  \<open>computeRigidTransformFromPoints\<close> has fifteen entries \<open>NaN\<close>: neither is the identity.
\<close>

theorem identical_inputs_not_identity:
  "computeCentroid [\<lparr>x = Infinity, y = 0, z = 0\<rparr>] = Inr \<lparr>x = Infinity, y = 0, z = 0\<rparr>
   \<and> computeOptimalRotation [\<lparr>x = Infinity, y = 0, z = 0\<rparr>] [\<lparr>x = Infinity, y = 0, z = 0\<rparr>]
        \<lparr>x = Infinity, y = 0, z = 0\<rparr> \<lparr>x = Infinity, y = 0, z = 0\<rparr>
      = Inr (Matrix4 NaN NaN NaN 0  NaN NaN NaN 0  NaN NaN NaN 0  0 0 0 1)
   \<and> Matrix4 NaN NaN NaN 0  NaN NaN NaN 0  NaN NaN NaN 0  0 0 0 1 \<noteq> identity4
   \<and> [\<lparr>x = Infinity, y = 0, z = 0\<rparr>] \<noteq> []
   \<and> computeRigidTransformFromPoints [\<lparr>x = Infinity, y = 0, z = 0\<rparr>]
        [\<lparr>x = Infinity, y = 0, z = 0\<rparr>]
      = Inr (Matrix4 NaN NaN NaN NaN  NaN NaN NaN NaN  NaN NaN NaN NaN  NaN NaN NaN 1)
   \<and> Matrix4 NaN NaN NaN NaN  NaN NaN NaN NaN  NaN NaN NaN NaN  NaN NaN NaN 1 \<noteq> identity4"
proof -
  have cen: "computeCentroid [\<lparr>x = Infinity, y = 0, z = 0\<rparr>] = Inr \<lparr>x = Infinity, y = 0, z = 0\<rparr>"
    by (simp add: computeCentroid_def)
  have rot: "computeOptimalRotation [\<lparr>x = Infinity, y = 0, z = 0\<rparr>]
        [\<lparr>x = Infinity, y = 0, z = 0\<rparr>]
        \<lparr>x = Infinity, y = 0, z = 0\<rparr> \<lparr>x = Infinity, y = 0, z = 0\<rparr>
      = Inr (Matrix4 NaN NaN NaN 0  NaN NaN NaN 0  NaN NaN NaN 0  0 0 0 1)"
    by (rule rotation_of_infinite_point) simp
  have rigid: "computeRigidTransformFromPoints [\<lparr>x = Infinity, y = 0, z = 0\<rparr>]
        [\<lparr>x = Infinity, y = 0, z = 0\<rparr>]
      = Inr (Matrix4 NaN NaN NaN NaN  NaN NaN NaN NaN  NaN NaN NaN NaN  NaN NaN NaN 1)"
    by (rule rigid_of_infinite_point) simp
  show ?thesis
    by (simp only: cen rot rigid) (simp add: identity4_def)
qed

text \<open>
  C3, amended. Identical inputs with finite coordinates of absolute value at most
  \<open>1e50\<close> yield the identity: for every such list \<open>S\<close> and centroid \<open>c\<close>,
  \<open>computeOptimalRotation(S, S, c, c)\<close> is the identity matrix, and for every such
  non-empty list \<open>P\<close>, \<open>computeRigidTransformFromPoints(P, P)\<close> is the identity matrix.
  The rounding of the code has no effect here: the covariance matrix it computes is
  symmetric entry by entry, so the product of \<open>n\<close> and the seed is \<open>(tr, 0, 0, 0)\<close> with
  \<open>tr\<close> not negative; its length is the root of the square of \<open>tr\<close>, and \<open>tr / tr\<close> is
  1; the two spreads are one and the same number, whose quotient is 1; and the
  translation is \<open>c - c\<close>.
\<close>

theorem identical_inputs_identity:
  assumes "list_all (boundedPoint (10 ^ 50)) S" and "boundedPoint (10 ^ 50) c"
    and "list_all (boundedPoint (10 ^ 50)) P" and "P \<noteq> []"
  shows "computeOptimalRotation S S c c = Inr identity4
       \<and> computeRigidTransformFromPoints P P = Inr identity4"
proof
  from assms(2) have fc: "finitePoint c" by (simp add: boundedPoint_def)
  from bounded_finite [OF assms(1)] have "list_all2 (proportional 1 c c) S S"
    by (simp add: list_all2_same list_all_iff proportional_same)
  then show "computeOptimalRotation S S c c = Inr identity4"
    using fc by (simp add: computeOptimalRotation_proportional)
next
  note fin = bounded_finite [OF assms(3)]
  from computeCentroid_is_point [OF fin assms(4)] obtain a b c' where
    cen: "computeCentroid P = Inr (point a b c')" by blast
  from fin have "list_all2 (proportional 1 (point a b c') (point a b c')) P P"
    by (simp add: list_all2_same list_all_iff proportional_same)
  from computeRigid_proportional [OF fin fin cen cen this, of 1]
  show "computeRigidTransformFromPoints P P = Inr identity4"
    by (simp add: identity4_def)
qed

text \<open>The three unit points of the tests, with the origin as centroid.\<close>

theorem identical_inputs_identity_witness:
  "list_all (boundedPoint (10 ^ 50)) [point 1 0 0, point 0 1 0, point 0 0 1]
   \<and> boundedPoint (10 ^ 50) (point 0 0 0)
   \<and> list_all (boundedPoint (10 ^ 50)) [point 1 0 0, point 0 1 0, point 0 0 1]
   \<and> [point 1 0 0, point 0 1 0, point 0 0 1] \<noteq> []
   \<and> computeOptimalRotation [point 1 0 0, point 0 1 0, point 0 0 1]
        [point 1 0 0, point 0 1 0, point 0 0 1] (point 0 0 0) (point 0 0 0) = Inr identity4
   \<and> computeRigidTransformFromPoints [point 1 0 0, point 0 1 0, point 0 0 1]
        [point 1 0 0, point 0 1 0, point 0 0 1] = Inr identity4"
  using identical_inputs_identity
    [of "[point 1 0 0, point 0 1 0, point 0 0 1]" "point 0 0 0"
        "[point 1 0 0, point 0 1 0, point 0 0 1]"]
  by (simp add: boundedPoint_point)

text \<open>
  C5, as stated, speaks of every single-point input. It fails when a coordinate is not
  finite. For \<open>p = (Infinity, 0, 0)\<close> and \<open>q = (0, 0, 0)\<close> the centred source coordinate is
  \<open>Infinity - Infinity\<close>: the rotation is not the identity but a block of \<open>NaN\<close>, the
  matrix returned is not the translation by \<open>q - p\<close>, and it maps \<open>p\<close> to a point of
  three \<open>NaN\<close>.
\<close>

theorem single_point_not_translation:
  "computeCentroid [\<lparr>x = Infinity, y = 0, z = 0\<rparr>] = Inr \<lparr>x = Infinity, y = 0, z = 0\<rparr>
   \<and> computeCentroid [point 0 0 0] = Inr (point 0 0 0)
   \<and> computeOptimalRotation [\<lparr>x = Infinity, y = 0, z = 0\<rparr>] [point 0 0 0]
        \<lparr>x = Infinity, y = 0, z = 0\<rparr> (point 0 0 0)
      = Inr (Matrix4 NaN NaN NaN 0  NaN NaN NaN 0  NaN NaN NaN 0  0 0 0 1)
   \<and> Matrix4 NaN NaN NaN 0  NaN NaN NaN 0  NaN NaN NaN 0  0 0 0 1 \<noteq> identity4
   \<and> computeRigidTransformFromPoints [\<lparr>x = Infinity, y = 0, z = 0\<rparr>] [point 0 0 0]
      = Inr (Matrix4 NaN NaN NaN NaN  NaN NaN NaN NaN  NaN NaN NaN NaN  NaN NaN NaN 1)
   \<and> Matrix4 NaN NaN NaN NaN  NaN NaN NaN NaN  NaN NaN NaN NaN  NaN NaN NaN 1
      \<noteq> makeTranslation (x (point 0 0 0) - x \<lparr>x = Infinity, y = 0, z = 0\<rparr>)
           (y (point 0 0 0) - y \<lparr>x = Infinity, y = 0, z = 0\<rparr>)
           (z (point 0 0 0) - z \<lparr>x = Infinity, y = 0, z = 0\<rparr>)
   \<and> applyMatrix4 \<lparr>x = Infinity, y = 0, z = 0\<rparr>
        (Matrix4 NaN NaN NaN NaN  NaN NaN NaN NaN  NaN NaN NaN NaN  NaN NaN NaN 1)
      = \<lparr>x = NaN, y = NaN, z = NaN\<rparr>
   \<and> \<lparr>x = NaN, y = NaN, z = NaN\<rparr> \<noteq> point 0 0 0"
proof -
  have cen: "computeCentroid [\<lparr>x = Infinity, y = 0, z = 0\<rparr>] = Inr \<lparr>x = Infinity, y = 0, z = 0\<rparr>"
    "computeCentroid [point 0 0 0] = Inr (point 0 0 0)"
    by (simp_all add: computeCentroid_def point_def)
  have rot: "computeOptimalRotation [\<lparr>x = Infinity, y = 0, z = 0\<rparr>] [point 0 0 0]
        \<lparr>x = Infinity, y = 0, z = 0\<rparr> (point 0 0 0)
      = Inr (Matrix4 NaN NaN NaN 0  NaN NaN NaN 0  NaN NaN NaN 0  0 0 0 1)"
    by (rule rotation_of_infinite_point) simp
  have rigid: "computeRigidTransformFromPoints [\<lparr>x = Infinity, y = 0, z = 0\<rparr>] [point 0 0 0]
      = Inr (Matrix4 NaN NaN NaN NaN  NaN NaN NaN NaN  NaN NaN NaN NaN  NaN NaN NaN 1)"
    by (rule rigid_of_infinite_point) simp
  show ?thesis
    by (simp only: cen rot rigid) (simp add: identity4_def point_def)
qed

text \<open>
  C5, amended. For a single pair of points \<open>p\<close>, \<open>q\<close> with finite coordinates of
  absolute value at most \<open>1e6\<close> the function returns without error; the centroids are
  \<open>p\<close> and \<open>q\<close>, the covariance matrix is zero, the power iteration keeps its seed
  \<open>(1, 0, 0, 0)\<close>, whose matrix is the identity, both spreads are 0, the scale is 1, and
  the result is the translation by the computed difference \<open>q - p\<close>. It maps \<open>p\<close> to
  within \<open>1e-6\<close> of \<open>q\<close> in every coordinate: the code computes \<open>p + (q - p)\<close>, which is
  \<open>q\<close> up to the rounding of one subtraction and one addition.
\<close>

theorem single_point_translation:
  assumes "boundedPoint (10 ^ 6) p" and "boundedPoint (10 ^ 6) q"
  shows "computeCentroid [p] = Inr p \<and> computeCentroid [q] = Inr q
       \<and> computeOptimalRotation [p] [q] p q = Inr (quaternion_matrix (1, 0, 0, 0))
       \<and> quaternion_matrix (1, 0, 0, 0) = identity4
       \<and> spread_loop [p] [q] p q (0, 0) = Inr (0, 0)
       \<and> uniform_scale 0 0 = 1
       \<and> computeRigidTransformFromPoints [p] [q]
           = Inr (compose_transform \<lparr>x = x q - x p, y = y q - y p, z = z q - z p\<rparr> 1 identity4)
       \<and> compose_transform \<lparr>x = x q - x p, y = y q - y p, z = z q - z p\<rparr> 1 identity4
           = makeTranslation (x q - x p) (y q - y p) (z q - z p)
       \<and> near_point (1 / 10 ^ 6)
           (applyMatrix4 p (makeTranslation (x q - x p) (y q - y p) (z q - z p))) q"
proof -
  from assms have fin: "finitePoint p" "finitePoint q" by (simp_all add: boundedPoint_def)
  then obtain a b c d e f where p: "p = point a b c" and q: "q = point d e f"
    using finitePoint_is_point by blast
  have cp: "computeCentroid [p] = Inr p" and cq: "computeCentroid [q] = Inr q"
    by (simp_all add: computeCentroid_def p q point_def)
  have "list_all2 (proportional 0 p q) [p] [q]"
    by (simp add: proportional_def p q point_def finitePoint_def)
  then have rot: "computeOptimalRotation [p] [q] p q = Inr identity4"
    using fin by (simp add: computeOptimalRotation_proportional)
  have sp: "spread_loop [p] [q] p q (0, 0) = Inr (0, 0)"
    by (simp add: p q point_def Let_def)
  have us: "uniform_scale 0 0 = 1"
    by (simp add: uniform_scale_def)
  have tr: "translation_of identity4 1 p q = \<lparr>x = x q - x p, y = y q - y p, z = z q - z p\<rparr>"
    by (simp add: translation_of_def identity4_def multiplyScalar_def p q point_def)
  have rigid: "computeRigidTransformFromPoints [p] [q]
           = Inr (compose_transform \<lparr>x = x q - x p, y = y q - y p, z = z q - z p\<rparr> 1 identity4)"
    by (simp only: computeRigidTransformFromPoints_def Let_def cp cq rot sp us tr
          sum.case prod.case)
  have ct: "compose_transform \<lparr>x = x q - x p, y = y q - y p, z = z q - z p\<rparr> 1 identity4
           = makeTranslation (x q - x p) (y q - y p) (z q - z p)"
    by (simp add: compose_transform_def identity4_def p q point_def)
  have "applyMatrix4 p (makeTranslation (x q - x p) (y q - y p) (z q - z p)) = q"
    by (simp add: p q point_def)
  then have ap: "near_point (1 / 10 ^ 6)
      (applyMatrix4 p (makeTranslation (x q - x p) (y q - y p) (z q - z p))) q"
    by (simp only: q near_point_point) simp
  from cp cq rot sp us rigid ct ap show ?thesis
    by (simp only: quaternion_matrix_seed simp_thms)
qed

theorem single_point_translation_witness:
  "boundedPoint (10 ^ 6) (point 1 2 3) \<and> boundedPoint (10 ^ 6) (point 4 6 8)
   \<and> computeRigidTransformFromPoints [point 1 2 3] [point 4 6 8]
        = Inr (makeTranslation 3 4 5)
   \<and> near_point (1 / 10 ^ 6) (applyMatrix4 (point 1 2 3) (makeTranslation 3 4 5))
        (point 4 6 8)"
  using single_point_translation [of "point 1 2 3" "point 4 6 8"]
  by (simp add: point_def finitePoint_def boundedPoint_def near_point_def close_to_def)

section \<open>The centroid of the empty list\<close>

text \<open>
  C9, as stated, asks \<open>computeCentroid\<close> to reject the empty list with an error. It does
  not: no error is the result.
\<close>

theorem computeCentroid_empty_no_error:
  "computeCentroid [] \<noteq> Inl TypeError"
  by (simp add: computeCentroid_def)

text \<open>
  C9, amended. Given the empty list, \<open>computeCentroid\<close> raises no error and returns the
  point whose three coordinates are \<open>NaN\<close>, the value of \<open>0 / 0\<close>.
\<close>

theorem computeCentroid_empty_NaN:
  "computeCentroid [] = Inr \<lparr>x = NaN, y = NaN, z = NaN\<rparr>"
  by (simp add: computeCentroid_def)

section \<open>Scaled and translated copies\<close>

text \<open>
  C2, as stated, fails for a source whose spread is positive but at most \<open>1e-10\<close>: the
  scale is then 1 whatever \<open>k\<close> is. Two source points \<open>2^-20\<close> apart, scaled by
  \<open>k = 2^21 + 1\<close> with no translation: the result is the translation by \<open>(1, 0, 0)\<close>,
  which sends the first source point \<open>(0, 0, 0)\<close> to \<open>(1, 0, 0)\<close>, while its
  destination is \<open>(0, 0, 0)\<close>.
\<close>

theorem scale_translate_small_spread:
  "computeRigidTransformFromPoints [point 0 0 0, point (1 / 2 ^ 20) 0 0]
     (map (scale_translate 2097153 (point 0 0 0)) [point 0 0 0, point (1 / 2 ^ 20) 0 0])
     = Inr (makeTranslation 1 0 0)
   \<and> applyMatrix4 ([point 0 0 0, point (1 / 2 ^ 20) 0 0] ! 0) (makeTranslation 1 0 0)
       = point 1 0 0
   \<and> map (scale_translate 2097153 (point 0 0 0)) [point 0 0 0, point (1 / 2 ^ 20) 0 0] ! 0
       = point 0 0 0"
proof -
  let ?src = "[point 0 0 0, point (1 / 2 ^ 20) 0 0]"
  let ?dst = "[point 0 0 0, point (2097153 / 2 ^ 20) 0 0]"
  let ?sc = "point (1 / 2 ^ 21) 0 0"
  let ?dc = "point (2097153 / 2 ^ 21) 0 0"
  have dst: "map (scale_translate 2097153 (point 0 0 0)) ?src = ?dst" by simp
  have fin: "list_all finitePoint ?src" "list_all finitePoint ?dst" by simp_all
  have cen: "computeCentroid ?src = Inr ?sc" "computeCentroid ?dst = Inr ?dc"
    by (simp_all add: computeCentroid_def point_def)
  have pr: "list_all2 (proportional 2097153 ?sc ?dc) ?src ?dst"
    by (simp add: proportional_def)
  have s: "(1::real) = (if 1 / 10 ^ 10 < spread ?src ?sc then 2097153 else 1)"
    by (simp add: spread_def sqdist_def)
  have "computeRigidTransformFromPoints ?src ?dst = Inr (makeTranslation 1 0 0)"
    using computeRigid_proportional [OF fin cen pr _ s] by simp
  then show ?thesis
    unfolding dst by (simp add: point_def)
qed

text \<open>
  C2, amended. For every non-empty list of at most 1000 source points, every scale
  factor \<open>k\<close> with \<open>0 < k \<le> 1000\<close> and every offset \<open>t\<close>, the coordinates of the points and
  of the offset being finite and at most 1000 in absolute value: if each destination
  point is \<open>k\<close> times the source point plus \<open>t\<close>, and either the source spread about its
  centroid is at least \<open>1e-9\<close>, clear of the floor \<open>1e-10\<close> of the guard, or \<open>k\<close> is at
  most 10, then the matrix returned maps each source point to within \<open>1e-3\<close> of its
  destination point in every coordinate. Above the floor the scale computed is \<open>k\<close>. At
  or below it the scale is left at 1, every source point is within \<open>1e-5\<close> of the
  centroid, and the error of a coordinate is \<open>k - 1\<close> times that distance, less than
  \<open>1e-4\<close> for \<open>k\<close> up to 10.
\<close>

theorem scale_translate_reproduced:
  assumes "src \<noteq> []" and "length src \<le> 1000"
    and "list_all (boundedPoint 1000) src" and "boundedPoint 1000 t"
    and "0 < k" and "k \<le> 1000"
    and "computeCentroid src = Inr c"
    and "1 / 10 ^ 9 \<le> spread src c \<or> k \<le> 10"
  shows "\<exists>M. computeRigidTransformFromPoints src (map (scale_translate k t) src) = Inr M
           \<and> (\<forall>i < length src.
                 near_point (1 / 1000) (applyMatrix4 (src ! i) M)
                   (map (scale_translate k t) src ! i))"
proof -
  note fin_src = bounded_finite [OF assms(3)]
  from assms(4) have "finitePoint t" by (simp add: boundedPoint_def)
  then obtain tx ty tz where t: "t = point tx ty tz"
    using finitePoint_is_point by blast
  from computeCentroid_is_point [OF fin_src assms(1)] assms(7) obtain cx cy cz where
    c: "c = point cx cy cz" by auto
  let ?f = "scale_translate k (point tx ty tz)"
  let ?dc = "point (k * cx + tx) (k * cy + ty) (k * cz + tz)"
  define s where "s = (if 1 / 10 ^ 10 < spread src (point cx cy cz) then k else 1)"
  have cen: "computeCentroid src = Inr (point cx cy cz)" using assms(7) c by simp
  have dcen: "computeCentroid (map ?f src) = Inr ?dc"
    by (rule computeCentroid_scale_translate [OF fin_src assms(1) cen])
  have fin: "list_all finitePoint (map ?f src)"
    using fin_src by (simp add: list_all_iff scale_translate_val)
  have "\<forall>p\<in>set src. proportional k (point cx cy cz) ?dc p (?f p)"
    using fin_src by (auto simp: proportional_def list_all_iff scale_translate_val algebra_simps)
  then have pr: "list_all2 (proportional k (point cx cy cz) ?dc) src (map ?f src)"
    by (simp add: list_all2_map2 list_all2_same)
  have k0: "0 \<le> k" using assms(5) by simp
  let ?M = "Matrix4 (Num s) 0 0 (Num (k * cx + tx - cx * s))
                    0 (Num s) 0 (Num (k * cy + ty - cy * s))
                    0 0 (Num s) (Num (k * cz + tz - cz * s))
                    0 0 0 1"
  have rigid: "computeRigidTransformFromPoints src (map ?f src) = Inr ?M"
    by (rule computeRigid_proportional [OF fin_src fin cen dcen pr k0 s_def])
  have "near_point (1 / 1000) (applyMatrix4 p ?M) (?f p)" if p: "p \<in> set src" for p
  proof -
    from fin_src p have "finitePoint p" by (simp add: list_all_iff)
    then obtain a b d where pp: "p = point a b d" using finitePoint_is_point by blast
    have ap: "applyMatrix4 (point a b d) ?M
        = point (s * a + (k * cx + tx - cx * s)) (s * b + (k * cy + ty - cy * s))
            (s * d + (k * cz + tz - cz * s))"
      by (simp add: point_def)
    have bounds: "\<bar>s * a + (k * cx + tx - cx * s) - (k * a + tx)\<bar> \<le> 1 / 1000
        \<and> \<bar>s * b + (k * cy + ty - cy * s) - (k * b + ty)\<bar> \<le> 1 / 1000
        \<and> \<bar>s * d + (k * cz + tz - cz * s) - (k * d + tz)\<bar> \<le> 1 / 1000"
    proof (cases "1 / 10 ^ 10 < spread src (point cx cy cz)")
      case True
      then have "s = k" by (simp add: s_def)
      then show ?thesis by (simp add: algebra_simps)
    next
      case False
      then have s1: "s = 1" by (simp add: s_def)
      from False assms(8) c have k10: "k \<le> 10" by auto
      have "spread src (point cx cy cz) \<le> (1 / 10 ^ 5) * (1 / 10 ^ 5)"
        using False by simp
      from spread_bound [OF p this] have
        "\<bar>a - cx\<bar> \<le> 1 / 10 ^ 5" "\<bar>b - cy\<bar> \<le> 1 / 10 ^ 5" "\<bar>d - cz\<bar> \<le> 1 / 10 ^ 5"
        by (simp_all add: pp)
      then show ?thesis
        unfolding s1 using assms(5) k10 by (intro conjI floor_error)
    qed
    show ?thesis
      unfolding pp scale_translate_point ap near_point_point by (rule bounds)
  qed
  then have "\<forall>i < length src. near_point (1 / 1000) (applyMatrix4 (src ! i) ?M) (map ?f src ! i)"
    by simp
  with rigid show ?thesis unfolding t by blast
qed

text \<open>
  The unit points and the origin, scaled by 1.5 and moved by \<open>(2, -3, 4)\<close>; every
  number the code computes for this input is a double.
\<close>

theorem scale_translate_reproduced_witness:
  "[point 1 0 0, point 0 1 0, point 0 0 1, point 0 0 0] \<noteq> []
   \<and> length [point 1 0 0, point 0 1 0, point 0 0 1, point 0 0 0] \<le> 1000
   \<and> list_all (boundedPoint 1000) [point 1 0 0, point 0 1 0, point 0 0 1, point 0 0 0]
   \<and> boundedPoint 1000 (point 2 (- 3) 4) \<and> (0::real) < 3 / 2 \<and> (3::real) / 2 \<le> 1000
   \<and> computeCentroid [point 1 0 0, point 0 1 0, point 0 0 1, point 0 0 0]
        = Inr (point (1 / 4) (1 / 4) (1 / 4))
   \<and> 1 / 10 ^ 9 \<le> spread [point 1 0 0, point 0 1 0, point 0 0 1, point 0 0 0]
                      (point (1 / 4) (1 / 4) (1 / 4))
   \<and> (\<exists>M. computeRigidTransformFromPoints [point 1 0 0, point 0 1 0, point 0 0 1, point 0 0 0]
              (map (scale_translate (3 / 2) (point 2 (- 3) 4))
                 [point 1 0 0, point 0 1 0, point 0 0 1, point 0 0 0]) = Inr M
          \<and> (\<forall>i < length [point 1 0 0, point 0 1 0, point 0 0 1, point 0 0 0].
                near_point (1 / 1000)
                  (applyMatrix4 ([point 1 0 0, point 0 1 0, point 0 0 1, point 0 0 0] ! i) M)
                  (map (scale_translate (3 / 2) (point 2 (- 3) 4))
                      [point 1 0 0, point 0 1 0, point 0 0 1, point 0 0 0] ! i)))"
proof -
  let ?src = "[point 1 0 0, point 0 1 0, point 0 0 1, point 0 0 0]"
  let ?c = "point (1 / 4) (1 / 4) (1 / 4)"
  have h1: "?src \<noteq> []" by simp
  have h2: "length ?src \<le> 1000" by simp
  have h3: "list_all (boundedPoint 1000) ?src" by (simp add: boundedPoint_point)
  have h4: "boundedPoint 1000 (point 2 (- 3) 4)" by (simp add: boundedPoint_point)
  have h5: "(0::real) < 3 / 2" by simp
  have h6: "(3::real) / 2 \<le> 1000" by simp
  have h7: "computeCentroid ?src = Inr ?c"
    by (simp add: computeCentroid_def point_def)
  have h8: "1 / 10 ^ 9 \<le> spread ?src ?c"
    by (simp add: spread_def sqdist_def)
  from scale_translate_reproduced [OF h1 h2 h3 h4 h5 h6 h7 disjI1 [OF h8]]
    h1 h2 h3 h4 h5 h6 h7 h8
  show ?thesis by (intro conjI)
qed

section \<open>Coincident destination points\<close>

text \<open>
  C10, as stated, fails for a source spread that is positive but at most \<open>1e-10\<close>:
  the guard on the spread leaves the scale at 1, the matrix is a translation of
  determinant 1, and it does not send the source point \<open>(0, 0, 0)\<close> to the common
  destination point \<open>(5, 5, 5)\<close>.
\<close>

theorem coincident_destination_small_spread:
  "0 < spread [point 0 0 0, point (1 / 2 ^ 20) 0 0] (point (1 / 2 ^ 21) 0 0)
   \<and> computeCentroid [point 0 0 0, point (1 / 2 ^ 20) 0 0] = Inr (point (1 / 2 ^ 21) 0 0)
   \<and> computeRigidTransformFromPoints [point 0 0 0, point (1 / 2 ^ 20) 0 0]
        [point 5 5 5, point 5 5 5]
        = Inr (makeTranslation (Num (5 - 1 / 2 ^ 21)) 5 5)
   \<and> determinant (makeTranslation (Num (5 - 1 / 2 ^ 21)) 5 5) = 1
   \<and> applyMatrix4 (point 0 0 0) (makeTranslation (Num (5 - 1 / 2 ^ 21)) 5 5)
       = point (5 - 1 / 2 ^ 21) 5 5"
proof -
  let ?src = "[point 0 0 0, point (1 / 2 ^ 20) 0 0]"
  let ?dst = "[point 5 5 5, point 5 5 5]"
  let ?sc = "point (1 / 2 ^ 21) 0 0"
  let ?dc = "point 5 5 5"
  have fin: "list_all finitePoint ?src" "list_all finitePoint ?dst" by simp_all
  have cen: "computeCentroid ?src = Inr ?sc" "computeCentroid ?dst = Inr ?dc"
    by (simp_all add: computeCentroid_def point_def)
  have pr: "list_all2 (proportional 0 ?sc ?dc) ?src ?dst"
    by (simp add: proportional_def)
  have s: "(1::real) = (if 1 / 10 ^ 10 < spread ?src ?sc then 0 else 1)"
    by (simp add: spread_def sqdist_def)
  have "computeRigidTransformFromPoints ?src ?dst
          = Inr (makeTranslation (Num (5 - 1 / 2 ^ 21)) 5 5)"
    using computeRigid_proportional [OF fin cen pr _ s] by simp
  moreover have "0 < spread ?src ?sc" by (simp add: spread_def sqdist_def)
  ultimately show ?thesis
    using cen(1) by (simp add: point_def)
qed

text \<open>
  C10, amended. Let the destination points all coincide at \<open>d\<close>, for at most 1000 source
  points, all coordinates being finite and at most 1000 in absolute value, and let the
  source spread about its centroid be at least 1. Then the function returns without
  error the matrix \<open>T \<cdot> S \<cdot> R\<close> composed with the scale it computes as the root of the
  quotient of the two spreads, no guard replacing it; that scale is within \<open>1e-6\<close> of
  0, the determinant of the matrix is within \<open>1e-6\<close> of 0, and the matrix maps every
  point with coordinates of absolute value at most 1000 to within \<open>1e-3\<close> of \<open>d\<close>. The
  scale and the determinant are 0 when the centroid of the destination points is
  computed without rounding, as for \<open>(5, 5, 5)\<close>; for three points \<open>(0.1, 0.1, 0.1)\<close>
  the centroid computed is not \<open>0.1\<close> and the scale is about \<open>3e-17\<close>.
\<close>

theorem coincident_destination_collapse:
  assumes "length src \<le> 1000" and "list_all (boundedPoint 1000) src"
    and "boundedPoint 1000 d"
    and "computeCentroid src = Inr c" and "1 \<le> spread src c"
  shows "\<exists>dc R srcSpreadSq dstSpreadSq scale M.
           computeCentroid (replicate (length src) d) = Inr dc
         \<and> computeOptimalRotation src (replicate (length src) d) c dc = Inr R
         \<and> spread_loop src (replicate (length src) d) c dc (0, 0)
              = Inr (srcSpreadSq, dstSpreadSq)
         \<and> scale = Math_sqrt (dstSpreadSq / srcSpreadSq)
         \<and> M = compose_transform (translation_of R scale c dc) scale R
         \<and> computeRigidTransformFromPoints src (replicate (length src) d) = Inr M
         \<and> close_to (1 / 10 ^ 6) scale 0
         \<and> close_to (1 / 10 ^ 6) (determinant M) 0
         \<and> (\<forall>v. boundedPoint 1000 v \<longrightarrow> near_point (1 / 1000) (applyMatrix4 v M) d)"
proof -
  note fin_src = bounded_finite [OF assms(2)]
  from assms(3) have "finitePoint d" by (simp add: boundedPoint_def)
  then obtain a b e where d: "d = point a b e"
    using finitePoint_is_point by blast
  have ne: "src \<noteq> []"
  proof
    assume "src = []"
    with assms(5) show False by (simp add: spread_def)
  qed
  from computeCentroid_is_point [OF fin_src ne] assms(4) obtain cx cy cz where
    c: "c = point cx cy cz" by auto
  let ?dst = "replicate (length src) (point a b e)"
  let ?M = "Matrix4 0 0 0 (Num a)  0 0 0 (Num b)  0 0 0 (Num e)  0 0 0 1"
  define sp where "sp = spread src (point cx cy cz)"
  have sp1: "1 \<le> sp" using assms(5) c by (simp add: sp_def)
  have fin: "list_all finitePoint ?dst" by (simp add: list_all_iff)
  have cen: "computeCentroid src = Inr (point cx cy cz)" using assms(4) c by simp
  have dcen: "computeCentroid ?dst = Inr (point a b e)"
    using ne by (simp add: computeCentroid_replicate)
  have "\<forall>p\<in>set src. proportional 0 (point cx cy cz) (point a b e) p (point a b e)"
    using fin_src by (simp add: proportional_def list_all_iff)
  then have pr: "list_all2 (proportional 0 (point cx cy cz) (point a b e)) src ?dst"
    by (simp add: list_all2_conv_all_nth)
  have rot: "computeOptimalRotation src ?dst (point cx cy cz) (point a b e) = Inr identity4"
    using pr by (simp add: computeOptimalRotation_proportional)
  have loop: "spread_loop src ?dst (point cx cy cz) (point a b e) (0, 0) = Inr (Num sp, Num 0)"
    using spread_loop_finite [OF fin_src fin, of "point cx cy cz" "point a b e" 0 0]
      spread_proportional [OF pr]
    by (simp add: sp_def)
  have us: "uniform_scale (Num sp) (Num 0) = Math_sqrt (Num 0 / Num sp)"
    using sp1 by (simp add: uniform_scale_def)
  have sc: "Math_sqrt (Num 0 / Num sp) = Num 0"
    using sp1 by simp
  have tr: "translation_of identity4 (Num 0) (point cx cy cz) (point a b e) = point a b e"
    by (simp add: translation_of_identity)
  have co: "compose_transform (point a b e) (Num 0) identity4 = ?M"
    by (simp add: compose_transform_identity)
  have rigid: "computeRigidTransformFromPoints src ?dst = Inr ?M"
    by (simp only: computeRigidTransformFromPoints_def Let_def cen dcen rot loop sum.case
          prod.case us sc tr co)
  have M: "?M = compose_transform
      (translation_of identity4 (Math_sqrt (Num 0 / Num sp)) (point cx cy cz) (point a b e))
      (Math_sqrt (Num 0 / Num sp)) identity4"
    by (simp only: sc tr co)
  have s0: "close_to (1 / 10 ^ 6) (Math_sqrt (Num 0 / Num sp)) 0"
    by (simp only: sc) (simp add: close_to_Num)
  have det: "close_to (1 / 10 ^ 6) (determinant ?M) 0"
    by (simp add: close_to_Num)
  have ap: "\<forall>v. boundedPoint 1000 v \<longrightarrow> near_point (1 / 1000) (applyMatrix4 v ?M) (point a b e)"
  proof (intro allI impI)
    fix v
    assume "boundedPoint 1000 v"
    then have "finitePoint v" by (simp add: boundedPoint_def)
    then obtain vx vy vz where v: "v = point vx vy vz"
      using finitePoint_is_point by blast
    have "applyMatrix4 (point vx vy vz) ?M = point a b e"
      by (simp add: point_def)
    then show "near_point (1 / 1000) (applyMatrix4 v ?M) (point a b e)"
      by (simp only: v near_point_point) simp
  qed
  show ?thesis
    unfolding d c
    apply (intro exI conjI)
            apply (rule dcen)
           apply (rule rot)
          apply (rule loop)
         apply (rule refl)
        apply (rule M)
       apply (rule rigid)
      apply (rule s0)
     apply (rule det)
    apply (rule ap)
    done
qed

text \<open>
  The unit points and the origin, with four destination points \<open>(5, 5, 5)\<close>; every
  number the code computes for this input is a double, and the scale is 0.
\<close>

theorem coincident_destination_collapse_witness:
  "length [point 1 0 0, point 0 1 0, point 0 0 1, point 0 0 0] \<le> 1000
   \<and> list_all (boundedPoint 1000) [point 1 0 0, point 0 1 0, point 0 0 1, point 0 0 0]
   \<and> boundedPoint 1000 (point 5 5 5)
   \<and> computeCentroid [point 1 0 0, point 0 1 0, point 0 0 1, point 0 0 0]
        = Inr (point (1 / 4) (1 / 4) (1 / 4))
   \<and> 1 \<le> spread [point 1 0 0, point 0 1 0, point 0 0 1, point 0 0 0] (point (1 / 4) (1 / 4) (1 / 4))
   \<and> (\<exists>dc R srcSpreadSq dstSpreadSq scale M.
           computeCentroid
              (replicate (length [point 1 0 0, point 0 1 0, point 0 0 1, point 0 0 0]) (point 5 5 5))
              = Inr dc
         \<and> computeOptimalRotation [point 1 0 0, point 0 1 0, point 0 0 1, point 0 0 0]
              (replicate (length [point 1 0 0, point 0 1 0, point 0 0 1, point 0 0 0]) (point 5 5 5))
              (point (1 / 4) (1 / 4) (1 / 4)) dc = Inr R
         \<and> spread_loop [point 1 0 0, point 0 1 0, point 0 0 1, point 0 0 0]
              (replicate (length [point 1 0 0, point 0 1 0, point 0 0 1, point 0 0 0]) (point 5 5 5))
              (point (1 / 4) (1 / 4) (1 / 4)) dc (0, 0)
              = Inr (srcSpreadSq, dstSpreadSq)
         \<and> scale = Math_sqrt (dstSpreadSq / srcSpreadSq)
         \<and> M = compose_transform (translation_of R scale (point (1 / 4) (1 / 4) (1 / 4)) dc)
                 scale R
         \<and> computeRigidTransformFromPoints [point 1 0 0, point 0 1 0, point 0 0 1, point 0 0 0]
              (replicate (length [point 1 0 0, point 0 1 0, point 0 0 1, point 0 0 0]) (point 5 5 5))
              = Inr M
         \<and> close_to (1 / 10 ^ 6) scale 0
         \<and> close_to (1 / 10 ^ 6) (determinant M) 0
         \<and> near_point (1 / 1000) (applyMatrix4 (point 1 0 0) M) (point 5 5 5))"
proof -
  let ?src = "[point 1 0 0, point 0 1 0, point 0 0 1, point 0 0 0]"
  let ?c = "point (1 / 4) (1 / 4) (1 / 4)"
  let ?d = "point 5 5 5"
  have h1: "length ?src \<le> 1000" by simp
  have h2: "list_all (boundedPoint 1000) ?src" by (simp add: boundedPoint_point)
  have h3: "boundedPoint 1000 ?d" by (simp add: boundedPoint_point)
  have h4: "computeCentroid ?src = Inr ?c"
    by (simp add: computeCentroid_def point_def)
  have h5: "1 \<le> spread ?src ?c"
    by (simp add: spread_def sqdist_def)
  have h6: "boundedPoint 1000 (point 1 0 0)" by (simp add: boundedPoint_point)
  from coincident_destination_collapse [OF h1 h2 h3 h4 h5] obtain dc R srcSpreadSq dstSpreadSq
      scale M where
    r: "computeCentroid (replicate (length ?src) ?d) = Inr dc"
      "computeOptimalRotation ?src (replicate (length ?src) ?d) ?c dc = Inr R"
      "spread_loop ?src (replicate (length ?src) ?d) ?c dc (0, 0) = Inr (srcSpreadSq, dstSpreadSq)"
      "scale = Math_sqrt (dstSpreadSq / srcSpreadSq)"
      "M = compose_transform (translation_of R scale ?c dc) scale R"
      "computeRigidTransformFromPoints ?src (replicate (length ?src) ?d) = Inr M"
      "close_to (1 / 10 ^ 6) scale 0"
      "close_to (1 / 10 ^ 6) (determinant M) 0"
    and ap: "\<forall>v. boundedPoint 1000 v \<longrightarrow> near_point (1 / 1000) (applyMatrix4 v M) ?d"
    by blast
  from ap h6 have a1: "near_point (1 / 1000) (applyMatrix4 (point 1 0 0) M) ?d" by blast
  show ?thesis
    apply (intro conjI)
         apply (rule h1)
        apply (rule h2)
       apply (rule h3)
      apply (rule h4)
     apply (rule h5)
    apply (intro exI conjI)
            apply (rule r(1))
           apply (rule r(2))
          apply (rule r(3))
         apply (rule r(4))
        apply (rule r(5))
       apply (rule r(6))
      apply (rule r(7))
     apply (rule r(8))
    apply (rule a1)
    done
qed

section \<open>No exception on typed input\<close>

text \<open>
  C8. For point lists of equal length, whatever numbers they hold, both functions
  return a matrix and raise no exception: the only reads that could fail, those of
  \<open>targetPoints[i]\<close> and \<open>dstObjs[i]\<close>, are in bounds, and every loop runs a bounded
  number of times. The degenerate cases take the guarded fallbacks: when the length of
  \<open>newQ\<close> is below \<open>1e-10\<close> the power iteration returns the quaternion it has, and when
  the source spread is not above \<open>1e-10\<close> the scale is 1.
\<close>

theorem no_exception:
  assumes "length sourcePoints = length targetPoints"
  shows "(\<exists>R. computeOptimalRotation sourcePoints targetPoints sourceCentroid targetCentroid = Inr R)
       \<and> (\<exists>M. computeRigidTransformFromPoints sourcePoints targetPoints = Inr M)
       \<and> (length4 (key_times n q) < Num (1 / 10 ^ 10)
            \<longrightarrow> power_iteration (Suc remaining) n q = q)
       \<and> (\<not> Num (1 / 10 ^ 10) < srcSpreadSq \<longrightarrow> uniform_scale srcSpreadSq dstSpreadSq = 1)"
proof -
  from assms have le: "length sourcePoints \<le> length targetPoints" by simp
  have rot: "\<exists>R. computeOptimalRotation sourcePoints targetPoints sc tc = Inr R" for sc tc
    using covariance_loop_total [OF le, of sc tc "((0, 0, 0), (0, 0, 0), (0, 0, 0))"]
    by (auto simp: computeOptimalRotation_def)
  have "\<exists>M. computeRigidTransformFromPoints sourcePoints targetPoints = Inr M"
  proof -
    obtain sc where sc: "computeCentroid sourcePoints = Inr sc"
      using computeCentroid_total by blast
    obtain tc where tc: "computeCentroid targetPoints = Inr tc"
      using computeCentroid_total by blast
    from rot obtain R where R: "computeOptimalRotation sourcePoints targetPoints sc tc = Inr R"
      by blast
    from spread_loop_total [OF le] obtain srcSpreadSq dstSpreadSq where
      r: "spread_loop sourcePoints targetPoints sc tc (0, 0) = Inr (srcSpreadSq, dstSpreadSq)"
      by (metis surj_pair)
    show ?thesis
      by (simp only: computeRigidTransformFromPoints_def Let_def sc tc R r sum.case prod.case)
        blast
  qed
  with rot show ?thesis
    by (simp add: uniform_scale_def Let_def)
qed

text \<open>Three coincident source points, the zero matrix and a zero spread.\<close>

theorem no_exception_witness:
  "length [point 1 1 1, point 1 1 1, point 1 1 1] = length [point 5 5 5, point 5 5 5, point 5 5 5]
   \<and> (\<exists>R. computeOptimalRotation [point 1 1 1, point 1 1 1, point 1 1 1]
              [point 5 5 5, point 5 5 5, point 5 5 5] (point 1 1 1) (point 5 5 5) = Inr R)
   \<and> (\<exists>M. computeRigidTransformFromPoints [point 1 1 1, point 1 1 1, point 1 1 1]
              [point 5 5 5, point 5 5 5, point 5 5 5] = Inr M)
   \<and> length4 (key_times ((0, 0, 0, 0), (0, 0, 0, 0), (0, 0, 0, 0), (0, 0, 0, 0)) (1, 0, 0, 0))
         < Num (1 / 10 ^ 10)
   \<and> power_iteration (Suc 49) ((0, 0, 0, 0), (0, 0, 0, 0), (0, 0, 0, 0), (0, 0, 0, 0)) (1, 0, 0, 0)
         = (1, 0, 0, 0)
   \<and> \<not> Num (1 / 10 ^ 10) < 0
   \<and> uniform_scale 0 0 = 1"
proof -
  have h1: "length [point 1 1 1, point 1 1 1, point 1 1 1]
      = length [point 5 5 5, point 5 5 5, point 5 5 5]" by simp
  have h2: "length4 (key_times ((0, 0, 0, 0), (0, 0, 0, 0), (0, 0, 0, 0), (0, 0, 0, 0))
      (1, 0, 0, 0)) < Num (1 / 10 ^ 10)" by simp
  have h3: "\<not> Num (1 / 10 ^ 10) < 0" by simp
  from no_exception [OF h1, of "point 1 1 1" "point 5 5 5"
      "((0, 0, 0, 0), (0, 0, 0, 0), (0, 0, 0, 0), (0, 0, 0, 0))" "(1, 0, 0, 0)" 49 0 0]
    h1 h2 h3
  show ?thesis by blast
qed

section \<open>The scale and its floor\<close>



section \<open>The order of composition\<close>

text \<open>
  C4. For every input of equal lengths, the matrix returned by
  \<open>computeRigidTransformFromPoints\<close> is the product \<open>T \<cdot> S \<cdot> R\<close>, where \<open>R\<close> is the matrix
  returned by \<open>computeOptimalRotation\<close> for the two centroids, \<open>S\<close> scales by the
  estimated scale \<open>s\<close>, and \<open>T\<close> translates by the destination centroid minus \<open>s\<close> times
  the rotated source centroid. For finite points it acts on a point by rotating first,
  then scaling, then translating.
\<close>

theorem composition_order:
  assumes "length src = length dst"
  shows "\<exists>sc dc R srcSpreadSq dstSpreadSq s t.
           computeCentroid src = Inr sc \<and> computeCentroid dst = Inr dc
         \<and> computeOptimalRotation src dst sc dc = Inr R
         \<and> spread_loop src dst sc dc (0, 0) = Inr (srcSpreadSq, dstSpreadSq)
         \<and> s = uniform_scale srcSpreadSq dstSpreadSq
         \<and> t = \<lparr>x = x dc - x (applyMatrix4 sc R) * s,
                 y = y dc - y (applyMatrix4 sc R) * s,
                 z = z dc - z (applyMatrix4 sc R) * s\<rparr>
         \<and> computeRigidTransformFromPoints src dst
              = Inr (multiply (multiply (makeTranslation (x t) (y t) (z t)) (makeScale s s s)) R)
         \<and> (list_all finitePoint src \<and> list_all finitePoint dst \<and> src \<noteq> [] \<longrightarrow>
             (\<forall>v. finitePoint v \<longrightarrow>
               applyMatrix4 v
                 (multiply (multiply (makeTranslation (x t) (y t) (z t)) (makeScale s s s)) R)
               = applyMatrix4 (applyMatrix4 (applyMatrix4 v R) (makeScale s s s))
                   (makeTranslation (x t) (y t) (z t))))"
proof -
  from assms have le: "length src \<le> length dst" by simp
  obtain sc where sc: "computeCentroid src = Inr sc"
    using computeCentroid_total by blast
  obtain dc where dc: "computeCentroid dst = Inr dc"
    using computeCentroid_total by blast
  obtain R where R: "computeOptimalRotation src dst sc dc = Inr R"
    using covariance_loop_total [OF le, of sc dc "((0, 0, 0), (0, 0, 0), (0, 0, 0))"]
    by (auto simp: computeOptimalRotation_def)
  from spread_loop_total [OF le] obtain srcSpreadSq dstSpreadSq where
    sp: "spread_loop src dst sc dc (0, 0) = Inr (srcSpreadSq, dstSpreadSq)"
    by (metis surj_pair)
  define s where "s = uniform_scale srcSpreadSq dstSpreadSq"
  define t where "t = translation_of R s sc dc"
  have t_eq: "t = \<lparr>x = x dc - x (applyMatrix4 sc R) * s,
                 y = y dc - y (applyMatrix4 sc R) * s,
                 z = z dc - z (applyMatrix4 sc R) * s\<rparr>"
    by (simp add: t_def translation_of_def multiplyScalar_def Let_def)
  have rigid: "computeRigidTransformFromPoints src dst
      = Inr (multiply (multiply (makeTranslation (x t) (y t) (z t)) (makeScale s s s)) R)"
    by (simp only: computeRigidTransformFromPoints_def Let_def sc dc R sp sum.case prod.case
          s_def [symmetric] t_def [symmetric] compose_transform_def)
  have ap: "applyMatrix4 v
        (multiply (multiply (makeTranslation (x t) (y t) (z t)) (makeScale s s s)) R)
      = applyMatrix4 (applyMatrix4 (applyMatrix4 v R) (makeScale s s s))
          (makeTranslation (x t) (y t) (z t))"
    if fin: "list_all finitePoint src \<and> list_all finitePoint dst \<and> src \<noteq> []"
      and v: "finitePoint v" for v
  proof -
    from fin have fs: "list_all finitePoint src" and fd: "list_all finitePoint dst"
      and ne: "src \<noteq> []" by simp_all
    from ne assms have dne: "dst \<noteq> []" by auto
    from computeCentroid_is_point [OF fs ne] sc obtain cx cy cz where
      scp: "sc = point cx cy cz" by auto
    from computeCentroid_is_point [OF fd dne] dc obtain dx dy dz where
      dcp: "dc = point dx dy dz" by auto
    from computeOptimalRotation_unit [OF assms fs fd, of sc dc] R obtain q where
      Rq: "R = quaternion_matrix q" and u: "unit_quaternion q"
      by (auto simp: scp dcp)
    from quaternion_matrix_finite [OF u] obtain r11 r12 r13 r21 r22 r23 r31 r32 r33 where
      Rm: "R = Matrix4 (Num r11) (Num r12) (Num r13) (Num 0)
                 (Num r21) (Num r22) (Num r23) (Num 0)
                 (Num r31) (Num r32) (Num r33) (Num 0)
                 (Num 0) (Num 0) (Num 0) (Num 1)" unfolding Rq by blast
    have "spread_loop src dst sc dc (0, 0) = Inr (Num (spread src sc), Num (spread dst dc))"
      using spread_loop_finite [OF fs fd _ _ assms, of sc dc 0 0] by (simp add: scp dcp)
    with sp have spv: "srcSpreadSq = Num (spread src sc)" "dstSpreadSq = Num (spread dst dc)"
      by simp_all
    obtain s' where s': "s = Num s'"
      using uniform_scale_isFinite [of src sc dst dc]
      by (auto simp: s_def spv isFinite_iff)
    from translation_of_finite [OF Rm, of s' cx cy cz dx dy dz] obtain tx ty tz where
      tp: "t = point tx ty tz"
      unfolding t_def s' scp dcp using finitePoint_is_point by blast
    from v obtain vx vy vz where vp: "v = point vx vy vz"
      using finitePoint_is_point by blast
    show ?thesis
      unfolding vp Rm tp s' point_sel by (rule apply_composition)
  qed
  show ?thesis
    apply (intro exI conjI)
           apply (rule sc)
          apply (rule dc)
         apply (rule R)
        apply (rule sp)
       apply (rule s_def)
      apply (rule t_eq)
     apply (rule rigid)
    using ap by blast
qed

text \<open>The unit points and a scaled, rotated and moved copy of them.\<close>

theorem composition_order_witness:
  "length [point 1 0 0, point 0 1 0, point 0 0 1] = length [point 3 1 2, point 3 4 2, point 0 1 2]
   \<and> (\<exists>R s (t :: Point3D).
          computeRigidTransformFromPoints [point 1 0 0, point 0 1 0, point 0 0 1]
              [point 3 1 2, point 3 4 2, point 0 1 2]
            = Inr (multiply (multiply (makeTranslation (x t) (y t) (z t)) (makeScale s s s)) R)
        \<and> applyMatrix4 (point 1 0 0)
              (multiply (multiply (makeTranslation (x t) (y t) (z t)) (makeScale s s s)) R)
            = applyMatrix4 (applyMatrix4 (applyMatrix4 (point 1 0 0) R) (makeScale s s s))
                (makeTranslation (x t) (y t) (z t)))"
proof -
  have h1: "list_all finitePoint [point 1 0 0, point 0 1 0, point 0 0 1]
      \<and> list_all finitePoint [point 3 1 2, point 3 4 2, point 0 1 2]
      \<and> [point 1 0 0, point 0 1 0, point 0 0 1] \<noteq> []" by simp
  have h2: "finitePoint (point 1 0 0)" by simp
  have h3: "length [point 1 0 0, point 0 1 0, point 0 0 1]
      = length [point 3 1 2, point 3 4 2, point 0 1 2]" by simp
  from composition_order [OF h3] h1 h2
  have "\<exists>R s (t :: Point3D).
          computeRigidTransformFromPoints [point 1 0 0, point 0 1 0, point 0 0 1]
              [point 3 1 2, point 3 4 2, point 0 1 2]
            = Inr (multiply (multiply (makeTranslation (x t) (y t) (z t)) (makeScale s s s)) R)
        \<and> applyMatrix4 (point 1 0 0)
              (multiply (multiply (makeTranslation (x t) (y t) (z t)) (makeScale s s s)) R)
            = applyMatrix4 (applyMatrix4 (applyMatrix4 (point 1 0 0) R) (makeScale s s s))
                (makeTranslation (x t) (y t) (z t))"
    apply (elim exE conjE)
    apply (rule exI)
    apply (rule exI)
    apply (rule exI)
    apply (rule conjI)
     apply assumption
    apply blast
    done
  with h3 show ?thesis by (intro conjI)
qed

section \<open>The quarter turn about the z axis\<close>

lemma quarter_turn_step:
  assumes "0 < a" "0 \<le> b"
  shows "power_iteration (Suc k) quarter_turn_key (direction (a, b))
       = power_iteration k quarter_turn_key (direction (a + 2 * b, 2 * a + b))"
proof -
  define r where "r = sqrt (a * a + b * b)"
  define r' where "r' = sqrt ((a + 2 * b) * (a + 2 * b) + (2 * a + b) * (2 * a + b))"
  have S: "0 < a * a + b * b" using assms by (simp add: add_pos_nonneg)
  then have r: "0 < r" by (simp add: r_def)
  have S': "a * a + b * b \<le> (a + 2 * b) * (a + 2 * b) + (2 * a + b) * (2 * a + b)"
    using assms by (simp add: algebra_simps)
  then have rr: "r \<le> r'" unfolding r_def r'_def by simp
  with r have r': "0 < r'" by linarith
  have kt: "key_times quarter_turn_key (direction (a, b))
      = (Num ((a + 2 * b) / r), Num 0, Num 0, Num ((2 * a + b) / r))"
    by (simp add: quarter_turn_key_def direction_def r_def add_divide_distrib)
  have "p / r * (p / r) + q / r * (q / r) = (p * p + q * q) / (r * r)" for p q
    by (simp add: add_divide_distrib)
  then have "((a + 2 * b) / r) * ((a + 2 * b) / r) + ((2 * a + b) / r) * ((2 * a + b) / r)
       = ((a + 2 * b) * (a + 2 * b) + (2 * a + b) * (2 * a + b)) / (r * r)" .
  also have "\<dots> = (r' / r) * (r' / r)"
    using S' S by (simp add: r_def r'_def)
  finally have E: "((a + 2 * b) / r) * ((a + 2 * b) / r)
       + ((2 * a + b) / r) * ((2 * a + b) / r) = (r' / r) * (r' / r)" .
  have "sqrt ((r' / r) * (r' / r)) = \<bar>r' / r\<bar>" by (rule real_sqrt_abs2)
  also have "\<dots> = r' / r" using r r' by simp
  finally have "sqrt (((a + 2 * b) / r) * ((a + 2 * b) / r)
       + ((2 * a + b) / r) * ((2 * a + b) / r)) = r' / r"
    by (simp only: E)
  moreover have "\<not> ((a + 2 * b) / r) * ((a + 2 * b) / r)
       + ((2 * a + b) / r) * ((2 * a + b) / r) < 0"
    by (simp add: not_less add_nonneg_nonneg)
  ultimately have len: "length4 (Num ((a + 2 * b) / r), Num 0, Num 0, Num ((2 * a + b) / r))
      = Num (r' / r)"
    by simp
  have big: "\<not> r' / r < 1 / 10 ^ 10"
  proof -
    have "1 \<le> r' / r" using r rr by simp
    moreover have "(1::real) / 10 ^ 10 < 1" by simp
    ultimately show ?thesis by linarith
  qed
  have ne: "r' / r \<noteq> 0" using r r' by simp
  have dv: "divide4 (Num ((a + 2 * b) / r), Num 0, Num 0, Num ((2 * a + b) / r)) (Num (r' / r))
      = direction (a + 2 * b, 2 * a + b)"
    using r r' by (simp add: direction_def r'_def [symmetric])
  show ?thesis
    by (simp only: power_iteration.simps kt Let_def len less_number.simps big if_False dv)
qed

lemma quarter_turn_iteration:
  "0 < a \<Longrightarrow> 0 \<le> b \<Longrightarrow>
   power_iteration k quarter_turn_key (direction (a, b)) = direction (iterate_pair k (a, b))"
proof (induction k arbitrary: a b)
  case 0
  show ?case by simp
next
  case (Suc k)
  from Suc.prems have "0 < a + 2 * b" "0 \<le> 2 * a + b" by simp_all
  from Suc.IH [OF this] quarter_turn_step [OF Suc.prems] show ?case by simp
qed

lemma iterate_pair_50:
  "iterate_pair 50 (1, 0) = (358948993845926294385125, 358948993845926294385124)"
  by (simp add: eval_nat_numeral)

lemma apply_z_rotation:
  "applyMatrix4 (point 1 0 0) (quaternion_matrix (Num qw, 0, 0, Num qz))
     = point (1 - 2 * (qz * qz)) (2 * (qz * qw)) 0"
  by (simp add: point_def)

lemma direction_products:
  assumes "0 < a * a + b * b"
  shows "b / sqrt (a * a + b * b) * (b / sqrt (a * a + b * b))
           = b * b / (a * a + b * b)"
    and "b / sqrt (a * a + b * b) * (a / sqrt (a * a + b * b))
           = b * a / (a * a + b * b)"
proof -
  have "sqrt (a * a + b * b) * sqrt (a * a + b * b) = a * a + b * b"
    using assms by simp
  then show "b / sqrt (a * a + b * b) * (b / sqrt (a * a + b * b))
           = b * b / (a * a + b * b)"
    and "b / sqrt (a * a + b * b) * (a / sqrt (a * a + b * b))
           = b * a / (a * a + b * b)"
    by simp_all
qed

text \<open>
  The two point sets of the quarter turn, source \<open>(1,0,0), (0,1,0), (0,0,1)\<close> and
  destination \<open>(0,1,0), (-1,0,0), (0,0,1)\<close>, with both centroids passed as the origin, as
  the tests of the repository call \<open>computeOptimalRotation\<close> for them: the matrix
  returned after the 50 iterations maps \<open>(1,0,0)\<close> to a point within \<open>1e-3\<close> of
  \<open>(0,1,0)\<close> in every component, which is what the tests expect.
\<close>

lemma quarter_turn_origin_centroids:
  "\<exists>R v. computeOptimalRotation [point 1 0 0, point 0 1 0, point 0 0 1]
            [point 0 1 0, point (- 1) 0 0, point 0 0 1] (point 0 0 0) (point 0 0 0) = Inr R
       \<and> applyMatrix4 (point 1 0 0) R = v
       \<and> close_to (1 / 1000) (x v) 0 \<and> close_to (1 / 1000) (y v) 1
       \<and> close_to (1 / 1000) (z v) 0"
proof -
  define A :: real where "A = 358948993845926294385125"
  define B :: real where "B = 358948993845926294385124"
  have cov: "covariance_loop [point 1 0 0, point 0 1 0, point 0 0 1]
        [point 0 1 0, point (- 1) 0 0, point 0 0 1] (point 0 0 0) (point 0 0 0)
        ((0, 0, 0), (0, 0, 0), (0, 0, 0))
      = Inr ((0, 1, 0), (- 1, 0, 0), (0, 0, 1))"
    by (simp add: Let_def)
  have key: "key_matrix ((0, 1, 0), (- 1, 0, 0), (0, 0, 1)) = quarter_turn_key"
    by (simp add: quarter_turn_key_def)
  have seed: "(1, 0, 0, 0) = direction (1, 0)"
    by (simp add: direction_def)
  have "power_iteration 50 quarter_turn_key (direction (1, 0)) = direction (iterate_pair 50 (1, 0))"
    by (rule quarter_turn_iteration) simp_all
  then have it: "power_iteration 50 quarter_turn_key (direction (1, 0)) = direction (A, B)"
    by (simp only: iterate_pair_50 A_def B_def)
  have rot: "computeOptimalRotation [point 1 0 0, point 0 1 0, point 0 0 1]
        [point 0 1 0, point (- 1) 0 0, point 0 0 1] (point 0 0 0) (point 0 0 0)
      = Inr (quaternion_matrix (direction (A, B)))"
    by (simp only: computeOptimalRotation_def cov sum.case key seed it)
  have pos: "0 < A * A + B * B" by (simp add: A_def B_def)
  have ap: "applyMatrix4 (point 1 0 0) (quaternion_matrix (direction (A, B)))
      = point (1 - 2 * (B * B / (A * A + B * B))) (2 * (B * A / (A * A + B * B))) 0"
    unfolding direction_def by (simp only: fst_conv snd_conv apply_z_rotation direction_products [OF pos])
  have b1: "\<bar>1 - 2 * (B * B / (A * A + B * B)) - 0\<bar> \<le> 1 / 1000"
    by (simp add: A_def B_def)
  have b2: "\<bar>2 * (B * A / (A * A + B * B)) - 1\<bar> \<le> 1 / 1000"
    by (simp add: A_def B_def)
  have "close_to (1 / 1000) (x (point (1 - 2 * (B * B / (A * A + B * B)))
            (2 * (B * A / (A * A + B * B))) 0)) 0"
    "close_to (1 / 1000) (y (point (1 - 2 * (B * B / (A * A + B * B)))
            (2 * (B * A / (A * A + B * B))) 0)) 1"
    "close_to (1 / 1000) (z (point (1 - 2 * (B * B / (A * A + B * B)))
            (2 * (B * A / (A * A + B * B))) 0)) 0"
    using b1 b2 by (simp_all add: close_to_def)
  with rot ap show ?thesis by metis
qed

text \<open>
  The same point sets with their own centroids, as \<open>computeRigidTransformFromPoints\<close>
  passes them. The matrix \<open>n\<close> then has the eigenvalues 2 and -2, the power iteration
  alternates between two quaternions, and after 50 iterations the matrix returned maps
  \<open>(1,0,0)\<close> to \<open>(1/3, 2/3, 2/3)\<close>.
\<close>

lemma sqrt6: "sqrt 6 * sqrt 6 = 6" "0 < sqrt 6"
  by simp_all

lemma inv6: "(1 / sqrt 6) * (1 / sqrt 6) = 1 / 6"
  using sqrt6 by simp

lemma own_centroid_first:
  "power_iteration (Suc k) own_centroid_key (1, 0, 0, 0)
     = power_iteration k own_centroid_key
         (Num (1 / sqrt 6), 0, Num (1 / sqrt 6), Num (2 / sqrt 6))"
proof -
  have kt: "key_times own_centroid_key (1, 0, 0, 0) = (Num (2 / 3), Num 0, Num (2 / 3), Num (4 / 3))"
    by (simp add: own_centroid_key_def)
  have "(2 / 3 * (2 / 3) + 0 * 0 + 2 / 3 * (2 / 3) + 4 / 3 * (4 / 3) :: real)
      = (2 * sqrt 6 / 3) * (2 * sqrt 6 / 3)"
    using sqrt6 by simp
  then have "sqrt (2 / 3 * (2 / 3) + 0 * 0 + 2 / 3 * (2 / 3) + 4 / 3 * (4 / 3))
      = \<bar>2 * sqrt 6 / 3\<bar>"
    by (simp only: real_sqrt_abs2)
  then have s: "sqrt (2 / 3 * (2 / 3) + 0 * 0 + 2 / 3 * (2 / 3) + 4 / 3 * (4 / 3))
      = 2 * sqrt 6 / 3" by simp
  have nn: "\<not> (2 / 3 * (2 / 3) + 0 * 0 + 2 / 3 * (2 / 3) + 4 / 3 * (4 / 3) :: real) < 0"
    by simp
  have len: "length4 (Num (2 / 3), Num 0, Num (2 / 3), Num (4 / 3)) = Num (2 * sqrt 6 / 3)"
    by (simp only: length4.simps times_number.simps plus_number.simps Math_sqrt.simps nn
          if_False s)
  have "1 \<le> sqrt 6" by simp
  then have "2 / 3 \<le> 2 * sqrt 6 / 3" by simp
  moreover have "(1::real) / 10 ^ 10 < 2 / 3" by simp
  ultimately have big: "\<not> 2 * sqrt 6 / 3 < 1 / 10 ^ 10" by linarith
  have dv: "divide4 (Num (2 / 3), Num 0, Num (2 / 3), Num (4 / 3)) (Num (2 * sqrt 6 / 3))
      = (Num (1 / sqrt 6), 0, Num (1 / sqrt 6), Num (2 / sqrt 6))"
    by simp
  show ?thesis
    by (simp only: power_iteration.simps kt Let_def len less_number.simps big if_False dv)
qed

lemma own_centroid_odd:
  "power_iteration (Suc k) own_centroid_key
       (Num (1 / sqrt 6), 0, Num (1 / sqrt 6), Num (2 / sqrt 6))
     = power_iteration k own_centroid_key
         (Num (2 / sqrt 6), 0, Num (- 1 / sqrt 6), Num (1 / sqrt 6))"
proof -
  define c where "c = 1 / sqrt 6"
  have cc: "c * c = 1 / 6" unfolding c_def by (rule inv6)
  have q: "(Num (1 / sqrt 6), 0, Num (1 / sqrt 6), Num (2 / sqrt 6))
      = (Num c, Num 0, Num c, Num (2 * c))"
    by (simp add: c_def)
  have kt: "key_times own_centroid_key (Num c, Num 0, Num c, Num (2 * c))
      = (Num (4 * c), Num 0, Num (- 2 * c), Num (2 * c))"
    by (simp add: own_centroid_key_def)
  have "4 * c * (4 * c) + 0 * 0 + - 2 * c * (- 2 * c) + 2 * c * (2 * c) = 24 * (c * c)"
    by simp
  also have "\<dots> = 2 * 2" by (simp add: cc)
  finally have sq: "4 * c * (4 * c) + 0 * 0 + - 2 * c * (- 2 * c) + 2 * c * (2 * c) = 2 * 2" .
  have s: "sqrt (4 * c * (4 * c) + 0 * 0 + - 2 * c * (- 2 * c) + 2 * c * (2 * c)) = 2"
    by (simp only: sq real_sqrt_abs2 abs_numeral)
  have nn: "\<not> 4 * c * (4 * c) + 0 * 0 + - 2 * c * (- 2 * c) + 2 * c * (2 * c) < 0"
    by (simp only: sq)
  have len: "length4 (Num (4 * c), Num 0, Num (- 2 * c), Num (2 * c)) = Num 2"
    by (simp only: length4.simps times_number.simps plus_number.simps Math_sqrt.simps nn
          if_False s)
  have big: "\<not> (2::real) < 1 / 10 ^ 10" by simp
  have dv: "divide4 (Num (4 * c), Num 0, Num (- 2 * c), Num (2 * c)) (Num 2)
      = (Num (2 / sqrt 6), 0, Num (- 1 / sqrt 6), Num (1 / sqrt 6))"
    by (simp add: c_def)
  show ?thesis
    by (simp only: q power_iteration.simps kt Let_def len less_number.simps big if_False dv)
qed

lemma own_centroid_even:
  "power_iteration (Suc k) own_centroid_key
       (Num (2 / sqrt 6), 0, Num (- 1 / sqrt 6), Num (1 / sqrt 6))
     = power_iteration k own_centroid_key
         (Num (1 / sqrt 6), 0, Num (1 / sqrt 6), Num (2 / sqrt 6))"
proof -
  define c where "c = 1 / sqrt 6"
  have cc: "c * c = 1 / 6" unfolding c_def by (rule inv6)
  have q: "(Num (2 / sqrt 6), 0, Num (- 1 / sqrt 6), Num (1 / sqrt 6))
      = (Num (2 * c), Num 0, Num (- c), Num c)"
    by (simp add: c_def)
  have kt: "key_times own_centroid_key (Num (2 * c), Num 0, Num (- c), Num c)
      = (Num (2 * c), Num 0, Num (2 * c), Num (4 * c))"
    by (simp add: own_centroid_key_def)
  have "2 * c * (2 * c) + 0 * 0 + 2 * c * (2 * c) + 4 * c * (4 * c) = 24 * (c * c)"
    by simp
  also have "\<dots> = 2 * 2" by (simp add: cc)
  finally have sq: "2 * c * (2 * c) + 0 * 0 + 2 * c * (2 * c) + 4 * c * (4 * c) = 2 * 2" .
  have s: "sqrt (2 * c * (2 * c) + 0 * 0 + 2 * c * (2 * c) + 4 * c * (4 * c)) = 2"
    by (simp only: sq real_sqrt_abs2 abs_numeral)
  have nn: "\<not> 2 * c * (2 * c) + 0 * 0 + 2 * c * (2 * c) + 4 * c * (4 * c) < 0"
    by (simp only: sq)
  have len: "length4 (Num (2 * c), Num 0, Num (2 * c), Num (4 * c)) = Num 2"
    by (simp only: length4.simps times_number.simps plus_number.simps Math_sqrt.simps nn
          if_False s)
  have big: "\<not> (2::real) < 1 / 10 ^ 10" by simp
  have dv: "divide4 (Num (2 * c), Num 0, Num (2 * c), Num (4 * c)) (Num 2)
      = (Num (1 / sqrt 6), 0, Num (1 / sqrt 6), Num (2 / sqrt 6))"
    by (simp add: c_def)
  show ?thesis
    by (simp only: q power_iteration.simps kt Let_def len less_number.simps big if_False dv)
qed

lemma own_centroid_two_steps:
  "power_iteration (2 * j) own_centroid_key
       (Num (2 / sqrt 6), 0, Num (- 1 / sqrt 6), Num (1 / sqrt 6))
     = (Num (2 / sqrt 6), 0, Num (- 1 / sqrt 6), Num (1 / sqrt 6))"
proof (induction j)
  case 0
  show ?case by simp
next
  case (Suc j)
  have "2 * Suc j = Suc (Suc (2 * j))" by simp
  with Suc show ?case
    by (simp only: own_centroid_even own_centroid_odd)
qed

lemma own_centroid_50:
  "power_iteration 50 own_centroid_key (1, 0, 0, 0)
     = (Num (2 / sqrt 6), 0, Num (- 1 / sqrt 6), Num (1 / sqrt 6))"
proof -
  have "(50::nat) = Suc (Suc (2 * 24))" by simp
  then show ?thesis
    by (simp only: own_centroid_first own_centroid_odd own_centroid_two_steps)
qed

lemma quarter_turn_own_centroids:
  "computeCentroid [point 1 0 0, point 0 1 0, point 0 0 1] = Inr (point (1 / 3) (1 / 3) (1 / 3))
   \<and> computeCentroid [point 0 1 0, point (- 1) 0 0, point 0 0 1]
        = Inr (point (- 1 / 3) (1 / 3) (1 / 3))
   \<and> computeOptimalRotation [point 1 0 0, point 0 1 0, point 0 0 1]
        [point 0 1 0, point (- 1) 0 0, point 0 0 1]
        (point (1 / 3) (1 / 3) (1 / 3)) (point (- 1 / 3) (1 / 3) (1 / 3))
      = Inr (quaternion_matrix (Num (2 / sqrt 6), 0, Num (- 1 / sqrt 6), Num (1 / sqrt 6)))
   \<and> applyMatrix4 (point 1 0 0)
        (quaternion_matrix (Num (2 / sqrt 6), 0, Num (- 1 / sqrt 6), Num (1 / sqrt 6)))
      = point (1 / 3) (2 / 3) (2 / 3)"
proof -
  have c1: "computeCentroid [point 1 0 0, point 0 1 0, point 0 0 1]
      = Inr (point (1 / 3) (1 / 3) (1 / 3))"
    by (simp add: computeCentroid_def point_def)
  have c2: "computeCentroid [point 0 1 0, point (- 1) 0 0, point 0 0 1]
      = Inr (point (- 1 / 3) (1 / 3) (1 / 3))"
    by (simp add: computeCentroid_def point_def)
  have cov: "covariance_loop [point 1 0 0, point 0 1 0, point 0 0 1]
        [point 0 1 0, point (- 1) 0 0, point 0 0 1]
        (point (1 / 3) (1 / 3) (1 / 3)) (point (- 1 / 3) (1 / 3) (1 / 3))
        ((0, 0, 0), (0, 0, 0), (0, 0, 0))
      = Inr ((Num (1 / 3), Num (2 / 3), Num (- 1 / 3)),
             (Num (- 2 / 3), Num (- 1 / 3), Num (- 1 / 3)),
             (Num (1 / 3), Num (- 1 / 3), Num (2 / 3)))"
    by (simp add: Let_def)
  have key: "key_matrix ((Num (1 / 3), Num (2 / 3), Num (- 1 / 3)),
             (Num (- 2 / 3), Num (- 1 / 3), Num (- 1 / 3)),
             (Num (1 / 3), Num (- 1 / 3), Num (2 / 3))) = own_centroid_key"
    by (simp add: own_centroid_key_def)
  have rot: "computeOptimalRotation [point 1 0 0, point 0 1 0, point 0 0 1]
        [point 0 1 0, point (- 1) 0 0, point 0 0 1]
        (point (1 / 3) (1 / 3) (1 / 3)) (point (- 1 / 3) (1 / 3) (1 / 3))
      = Inr (quaternion_matrix (Num (2 / sqrt 6), 0, Num (- 1 / sqrt 6), Num (1 / sqrt 6)))"
    by (simp only: computeOptimalRotation_def cov sum.case key own_centroid_50)
  have ap: "applyMatrix4 (point 1 0 0)
        (quaternion_matrix (Num (2 / sqrt 6), 0, Num (- 1 / sqrt 6), Num (1 / sqrt 6)))
      = point (1 / 3) (2 / 3) (2 / 3)"
    by (simp add: point_def)
  from c1 c2 rot ap show ?thesis by (intro conjI)
qed

text \<open>
  C7. The claim gives the two point sets; their centroids are \<open>(1/3, 1/3, 1/3)\<close> and
  \<open>(-1/3, 1/3, 1/3)\<close>, the values \<open>computeCentroid\<close> returns and
  \<open>computeRigidTransformFromPoints\<close> passes on. With these centroids the quarter turn is
  not recovered: the matrix returned by \<open>computeOptimalRotation\<close> maps \<open>(1,0,0)\<close> to within
  \<open>1e-3\<close> of \<open>(1/3, 2/3, 2/3)\<close>, whose second coordinate is farther than \<open>1e-3\<close> from
  the 1 of \<open>(0,1,0)\<close>. The power iteration reaches the eigenvector of the largest
  eigenvalue only when no other eigenvalue has the same absolute value; here \<open>n\<close> has
  the eigenvalues 2 and -2, and the iteration alternates between two quaternions
  without approaching the eigenvector of 2.
\<close>

theorem quarter_turn_not_recovered:
  "\<exists>sc dc R v.
       computeCentroid [point 1 0 0, point 0 1 0, point 0 0 1] = Inr sc
     \<and> computeCentroid [point 0 1 0, point (- 1) 0 0, point 0 0 1] = Inr dc
     \<and> computeOptimalRotation [point 1 0 0, point 0 1 0, point 0 0 1]
          [point 0 1 0, point (- 1) 0 0, point 0 0 1] sc dc = Inr R
     \<and> applyMatrix4 (point 1 0 0) R = v
     \<and> close_to (1 / 1000) (x v) (1 / 3) \<and> close_to (1 / 1000) (y v) (2 / 3)
     \<and> close_to (1 / 1000) (z v) (2 / 3)
     \<and> 1 / 1000 < \<bar>val (y v) - 1\<bar>"
proof -
  let ?R = "quaternion_matrix (Num (2 / sqrt 6), 0, Num (- 1 / sqrt 6), Num (1 / sqrt 6))"
  from quarter_turn_own_centroids have
    c1: "computeCentroid [point 1 0 0, point 0 1 0, point 0 0 1]
          = Inr (point (1 / 3) (1 / 3) (1 / 3))"
    and c2: "computeCentroid [point 0 1 0, point (- 1) 0 0, point 0 0 1]
          = Inr (point (- 1 / 3) (1 / 3) (1 / 3))"
    and rot: "computeOptimalRotation [point 1 0 0, point 0 1 0, point 0 0 1]
          [point 0 1 0, point (- 1) 0 0, point 0 0 1]
          (point (1 / 3) (1 / 3) (1 / 3)) (point (- 1 / 3) (1 / 3) (1 / 3)) = Inr ?R"
    and ap: "applyMatrix4 (point 1 0 0) ?R = point (1 / 3) (2 / 3) (2 / 3)"
    by (rule conjunct1, rule conjunct2 [THEN conjunct1],
        rule conjunct2 [THEN conjunct2, THEN conjunct1],
        rule conjunct2 [THEN conjunct2, THEN conjunct2])
  have b: "close_to (1 / 1000) (x (point (1 / 3) (2 / 3) (2 / 3))) (1 / 3)"
    "close_to (1 / 1000) (y (point (1 / 3) (2 / 3) (2 / 3))) (2 / 3)"
    "close_to (1 / 1000) (z (point (1 / 3) (2 / 3) (2 / 3))) (2 / 3)"
    "1 / 1000 < \<bar>val (y (point (1 / 3) (2 / 3) (2 / 3))) - 1\<bar>"
    by (simp_all add: close_to_Num)
  show ?thesis
    apply (intro exI conjI)
           apply (rule c1)
          apply (rule c2)
         apply (rule rot)
        apply (rule ap)
       apply (rule b(1))
      apply (rule b(2))
     apply (rule b(3))
    apply (rule b(4))
    done
qed

end
